theory Spec2Isabelle
  imports Main "HOL-Library.Word"
begin

section \<open>Python values used by the client\<close>

text \<open>
  The client (\<^verbatim>\<open>pyrogram/client/client.py\<close>) is Python: integers are unbounded
  (\<^typ>\<open>int\<close>), \<^verbatim>\<open>bytes\<close> are lists of 8-bit words, \<^verbatim>\<open>None\<close> is
  \<^term>\<open>None\<close>, and an exception is a value of the type \<open>error\<close>.
\<close>

type_synonym bytes = "8 word list"

datatype error =
    ValueError | TypeError | KeyError | IndexError | AttributeError | AssertionError
  | ConnectionError | TimeoutError | OSError | Base64Error
  | OverflowError | PeerIdInvalid | ChannelPrivate | VolumeLocNotFound | StopTransmission
  | RPCError string

subsection \<open>\<^verbatim>\<open>str(i)\<close> and \<^verbatim>\<open>int(s)\<close>\<close>

definition digit_char :: "nat \<Rightarrow> char" where
  "digit_char d = char_of (48 + d)"

definition digit_val :: "char \<Rightarrow> nat option" where
  "digit_val ch = (let n = (of_char ch :: nat) in if 48 \<le> n \<and> n \<le> 57 then Some (n - 48) else None)"

fun digits :: "nat \<Rightarrow> string" where
  "digits n = (if n < 10 then [digit_char n] else digits (n div 10) @ [digit_char (n mod 10)])"

declare digits.simps [simp del]

text \<open>\<^verbatim>\<open>str(i)\<close> for an integer: decimal digits, a minus sign in front of a negative one.\<close>

definition py_str :: "int \<Rightarrow> string" where
  "py_str i = (if i < 0 then CHR ''-'' # digits (nat (- i)) else digits (nat i))"

text \<open>\<^verbatim>\<open>str(x)\<close> where \<^verbatim>\<open>x\<close> is an integer or \<^verbatim>\<open>None\<close>.\<close>

definition py_str_opt :: "int option \<Rightarrow> string" where
  "py_str_opt x = (case x of None \<Rightarrow> ''None'' | Some i \<Rightarrow> py_str i)"

fun parse_digits :: "nat \<Rightarrow> string \<Rightarrow> nat option" where
  "parse_digits acc [] = Some acc"
| "parse_digits acc (ch # cs) =
     (case digit_val ch of None \<Rightarrow> None | Some d \<Rightarrow> parse_digits (10 * acc + d) cs)"

text \<open>
  \<^verbatim>\<open>int(s)\<close> on the strings the client builds (\<^verbatim>\<open>"-100" + str(channel_id)\<close>,
  \<^verbatim>\<open>str(peer_id)[4:]\<close>): an optional sign and at least one decimal digit; anything else
  raises \<^verbatim>\<open>ValueError\<close>, here \<^term>\<open>None\<close>.
\<close>

definition py_int :: "string \<Rightarrow> int option" where
  "py_int s =
     (case s of
        [] \<Rightarrow> None
      | ch # cs \<Rightarrow>
          if ch = CHR ''-'' then (if cs = [] then None else map_option (\<lambda>n. - int n) (parse_digits 0 cs))
          else if ch = CHR ''+'' then (if cs = [] then None else map_option int (parse_digits 0 cs))
          else map_option int (parse_digits 0 s))"

text \<open>\<^verbatim>\<open>s.lower()\<close> on ASCII text (usernames are ASCII).\<close>

definition lower_char :: "char \<Rightarrow> char" where
  "lower_char ch = (let n = (of_char ch :: nat) in if 65 \<le> n \<and> n \<le> 90 then char_of (n + 32) else ch)"

definition lower :: "string \<Rightarrow> string" where
  "lower s = map lower_char s"

text \<open>\<^verbatim>\<open>s.startswith(p)\<close> and \<^verbatim>\<open>x or y\<close> on optional integers (\<^verbatim>\<open>None\<close> and 0 are falsy).\<close>

definition startswith :: "string \<Rightarrow> string \<Rightarrow> bool" where
  "startswith s p = (take (length p) s = p)"

definition truthy :: "int option \<Rightarrow> bool" where
  "truthy x = (case x of None \<Rightarrow> False | Some i \<Rightarrow> i \<noteq> 0)"

definition py_or :: "int option \<Rightarrow> int option \<Rightarrow> int option" where
  "py_or x y = (if truthy x then x else y)"

lemma digit_val_digit_char: "d < 10 \<Longrightarrow> digit_val (digit_char d) = Some d"
  by (simp add: digit_val_def digit_char_def)

lemma parse_digits_append:
  "parse_digits acc (xs @ ys) =
     (case parse_digits acc xs of None \<Rightarrow> None | Some a \<Rightarrow> parse_digits a ys)"
  by (induction xs arbitrary: acc) (auto split: option.splits)

lemma parse_digits_digits: "parse_digits acc (digits n) = Some (acc * 10 ^ length (digits n) + n)"
proof (induction n arbitrary: acc rule: digits.induct)
  case (1 n)
  show ?case
  proof (cases "n < 10")
    case True
    then show ?thesis
      by (simp add: digits.simps [of n] digit_val_digit_char)
  next
    case False
    have step: "parse_digits acc (digits (n div 10)) =
        Some (acc * 10 ^ length (digits (n div 10)) + n div 10)"
      using "1.IH" [OF False] .
    have dv: "digit_val (digit_char (n mod 10)) = Some (n mod 10)"
      by (simp add: digit_val_digit_char)
    have "parse_digits acc (digits n) =
        Some (10 * (acc * 10 ^ length (digits (n div 10)) + n div 10) + n mod 10)"
      using False by (simp add: digits.simps [of n] parse_digits_append step dv)
    moreover have "length (digits n) = Suc (length (digits (n div 10)))"
      using False by (simp add: digits.simps [of n])
    ultimately show ?thesis
      by (simp add: algebra_simps)
  qed
qed

lemma digits_not_Nil: "digits n \<noteq> []"
  by (simp add: digits.simps [of n])

text \<open>
  For a channel id \<open>K \<ge> 0\<close> the string \<^verbatim>\<open>"-100" + str(K)\<close> reads back as the negative
  number whose decimal digits are 100 followed by those of \<open>K\<close>.
\<close>

lemma py_int_channel_prefix:
  assumes "0 \<le> K"
  shows "py_int (''-100'' @ py_str K) = Some (- (100 * 10 ^ length (digits (nat K)) + K))"
proof -
  have s: "py_str K = digits (nat K)"
    using assms by (simp add: py_str_def)
  have p: "parse_digits 0 (''100'' @ digits (nat K)) = parse_digits 100 (digits (nat K))"
    by (simp add: digit_val_def)
  show ?thesis
    using assms by (simp add: py_int_def s p [simplified] parse_digits_digits)
qed

lemma py_int_negative_channel: "K < 0 \<Longrightarrow> py_int (''-100'' @ py_str K) = None"
  by (simp add: py_int_def py_str_def digit_val_def)


section \<open>Telegram objects and the client state\<close>

text \<open>
  The schema objects (\<^verbatim>\<open>pyrogram.api.types\<close>, \<^verbatim>\<open>pyrogram.api.functions\<close>) are opaque
  records to the client; only the attributes that \<^verbatim>\<open>client.py\<close> reads are kept. An
  attribute that may be \<^verbatim>\<open>None\<close> is an option.
\<close>

datatype input_peer =
    InputPeerSelf
  | InputPeerUser int "int option"
  | InputPeerChat int
  | InputPeerChannel int "int option"

text \<open>
  An entity of a \<^verbatim>\<open>users\<close> or \<^verbatim>\<open>chats\<close> list. \<open>User id access_hash username phone\<close>,
  \<open>Channel id access_hash username\<close>, \<open>ChannelForbidden id access_hash\<close> (it has no
  \<^verbatim>\<open>username\<close> attribute); \<open>OtherEntity\<close> is any object that passes none of the
  \<^verbatim>\<open>isinstance\<close> tests of \<^verbatim>\<open>fetch_peers\<close> (\<^verbatim>\<open>UserEmpty\<close>, \<^verbatim>\<open>ChatEmpty\<close>).
\<close>

datatype entity =
    User int "int option" "string option" "string option"
  | Chat int
  | ChatForbidden int
  | Channel int "int option" "string option"
  | ChannelForbidden int "int option"
  | OtherEntity

text \<open>
  A message: \<open>Message id c\<close> has \<^verbatim>\<open>to_id.channel_id = c\<close> when \<^verbatim>\<open>to_id\<close> is a channel peer
  (\<^term>\<open>None\<close> otherwise); \<open>MessageEmpty id\<close> has no \<^verbatim>\<open>to_id\<close>.
\<close>

datatype message = Message int "int option" | MessageEmpty int

text \<open>
  An update: \<open>UpdateNewChannelMessage message pts pts_count\<close>, \<open>UpdateNewMessage message pts
  pts_count\<close>, \<open>UpdateChannelTooLong channel_id pts\<close>, and \<open>UpdateOther message channel_id pts
  pts_count\<close> for every other update type, with the attributes it has.
\<close>

datatype update =
    UpdateNewChannelMessage message int int
  | UpdateNewMessage message int int
  | UpdateChannelTooLong int "int option"
  | UpdateOther "message option" "int option" "int option" "int option"

text \<open>
  RPC functions: \<open>GetUsers user_id access_hash\<close> and \<open>GetChannels channel_id access_hash\<close>
  (one \<^verbatim>\<open>InputUser\<close> / \<^verbatim>\<open>InputChannel\<close>), \<open>GetChats chat_id\<close>,
  \<open>GetChannelDifference channel min_id max_id pts limit\<close>, \<open>GetDifference pts date qts\<close>;
  for the transfers \<open>GetFile location offset limit\<close>, \<open>GetCdnFile file_token offset limit\<close>,
  \<open>ReuploadCdnFile file_token request_token\<close>, \<open>GetCdnFileHashes file_token offset\<close>,
  \<open>SaveFilePart file_id file_part bytes\<close>, \<open>SaveBigFilePart file_id file_part
  file_total_parts bytes\<close>, \<open>ExportAuthorization dc_id\<close> and \<open>ImportAuthorization id bytes\<close>;
  for the start of the client \<open>InitTakeoutSession\<close>, \<open>GetPinnedDialogs\<close> and \<open>GetState\<close>.
  A file location is \<open>InputFileLocation volume_id local_id secret\<close> or
  \<open>InputDocumentFileLocation id access_hash\<close>.
\<close>

datatype location =
    InputFileLocation "int option" "int option" "int option"
  | InputDocumentFileLocation "int option" "int option"

datatype request =
    GetUsers int int
  | GetChannels int int
  | GetChats int
  | GetChannelDifference input_peer int int int int
  | GetDifference int int int
  | InvokeWithoutUpdates request
  | InvokeWithTakeout int request
  | ExportAuthorization int
  | ImportAuthorization int bytes
  | GetFile location nat nat
  | GetCdnFile bytes nat nat
  | ReuploadCdnFile bytes bytes
  | GetCdnFileHashes bytes nat
  | SaveFilePart int int bytes
  | SaveBigFilePart int int int bytes
  | InitTakeoutSession
  | GetPinnedDialogs
  | GetState

text \<open>
  RPC results: \<open>UserVector\<close> is the plain list that \<^verbatim>\<open>users.GetUsers\<close> returns,
  \<open>MessagesChats chats\<close>, \<open>Difference new_messages other_updates users chats\<close> (also the
  slice), \<open>ChannelDifference users chats\<close>, \<open>ChannelDifferenceTooLong users chats\<close>;
  for the transfers \<open>UploadFile bytes\<close> (\<^verbatim>\<open>upload.File\<close>), \<open>FileCdnRedirect dc_id file_token
  encryption_key encryption_iv\<close>, \<open>CdnFile bytes\<close>, \<open>CdnFileReuploadNeeded request_token\<close>,
  \<open>FileHashes\<close> (the list of \<open>(offset, limit, hash)\<close> that \<^verbatim>\<open>GetCdnFileHashes\<close> returns) and
  \<open>ExportedAuthorization id bytes\<close>; \<open>Takeout id\<close> is the result of \<^verbatim>\<open>InitTakeoutSession\<close>;
  \<open>OtherResult\<close> is any object with none of the attributes read.
\<close>

datatype response =
    UserVector "entity list"
  | MessagesChats "entity list"
  | Difference "message list" "update list" "entity list" "entity list"
  | DifferenceEmpty
  | DifferenceTooLong
  | ChannelDifference "entity list" "entity list"
  | ChannelDifferenceEmpty
  | ChannelDifferenceTooLong "entity list" "entity list"
  | ExportedAuthorization int bytes
  | UploadFile bytes
  | FileCdnRedirect int bytes bytes bytes
  | CdnFile bytes
  | CdnFileReuploadNeeded bytes
  | FileHashes "(int \<times> int \<times> bytes) list"
  | Takeout int
  | OtherResult

text \<open>
  The network is the environment. Each call of \<^verbatim>\<open>Session.send\<close> consumes the next
  scripted reply, which returns a result or raises; when no reply is left the call times
  out (\<^verbatim>\<open>Session.send\<close> raises \<^verbatim>\<open>TimeoutError\<close>). Every request is logged in \<open>sent\<close>.
\<close>

datatype reply = Raises error | Returns response

text \<open>
  A JSON document, as \<^verbatim>\<open>json.load\<close> returns it and \<^verbatim>\<open>json.dump\<close> takes it; an object
  is the list of its members in order. The attributes that \<^verbatim>\<open>load_session\<close> copies from
  the session file hold whatever value the file has, so they are JSON values
  (\<open>JNull\<close> is \<^verbatim>\<open>None\<close>). A file of the working directory holds one document.
\<close>

datatype json =
    JNull | JBool bool | JInt int | JStr string | JList "json list" | JObj "(string \<times> json) list"

record client =
  peers_by_id :: "int \<rightharpoonup> input_peer"
  peers_by_username :: "string \<rightharpoonup> input_peer"
  peers_by_phone :: "string \<rightharpoonup> input_peer"
  channels_pts :: "int \<rightharpoonup> int list"
  is_started :: bool
  no_updates :: bool
  takeout_id :: "int option"
  replies :: "reply list"
  sent :: "request list"
  updates_queue :: "(update \<times> entity list \<times> entity list) list"
  dc_id :: json
  test_mode :: json
  auth_key :: "bytes option"
  user_id :: json
  date :: json
  is_bot :: json
  workdir :: string
  session_name :: string
  files :: "string \<rightharpoonup> json"
  media_sessions :: "int set"
  temp_files :: "string \<rightharpoonup> bytes"

definition session_send :: "request \<Rightarrow> client \<Rightarrow> (error + response) \<times> client" where
  "session_send rq c =
     (case replies c of
        [] \<Rightarrow> (Inl TimeoutError, c\<lparr>sent := sent c @ [rq]\<rparr>)
      | r # rs \<Rightarrow>
          ((case r of Raises e \<Rightarrow> Inl e | Returns x \<Rightarrow> Inr x),
           c\<lparr>replies := rs, sent := sent c @ [rq]\<rparr>))"

section \<open>The peer directory\<close>

subsection \<open>\<^verbatim>\<open>Client.fetch_peers\<close>\<close>

text \<open>The body of the loop, for one entity; \<^verbatim>\<open>continue\<close> returns the state as it is.\<close>

fun fetch_peer :: "entity \<Rightarrow> client \<Rightarrow> error + client" where
  "fetch_peer (User uid access_hash username phone) c =
     (if access_hash = None then Inr c
      else
        let input_peer = InputPeerUser uid access_hash;
            c1 = c\<lparr>peers_by_id := (peers_by_id c)(uid \<mapsto> input_peer)\<rparr>;
            c2 = (case username of
                    None \<Rightarrow> c1
                  | Some u \<Rightarrow> c1\<lparr>peers_by_username := (peers_by_username c1)(lower u \<mapsto> input_peer)\<rparr>);
            c3 = (case phone of
                    None \<Rightarrow> c2
                  | Some ph \<Rightarrow> c2\<lparr>peers_by_phone := (peers_by_phone c2)(ph \<mapsto> input_peer)\<rparr>)
        in Inr c3)"
| "fetch_peer (Chat chat_id) c =
     Inr (c\<lparr>peers_by_id := (peers_by_id c)(- chat_id \<mapsto> InputPeerChat chat_id)\<rparr>)"
| "fetch_peer (ChatForbidden chat_id) c =
     Inr (c\<lparr>peers_by_id := (peers_by_id c)(- chat_id \<mapsto> InputPeerChat chat_id)\<rparr>)"
| "fetch_peer (Channel channel_id access_hash username) c =
     (case py_int (''-100'' @ py_str channel_id) of
        None \<Rightarrow> Inl ValueError
      | Some peer_id \<Rightarrow>
          if access_hash = None then Inr c
          else
            let input_peer = InputPeerChannel channel_id access_hash;
                c1 = c\<lparr>peers_by_id := (peers_by_id c)(peer_id \<mapsto> input_peer)\<rparr>
            in Inr (case username of
                      None \<Rightarrow> c1
                    | Some u \<Rightarrow> c1\<lparr>peers_by_username := (peers_by_username c1)(lower u \<mapsto> input_peer)\<rparr>))"
| "fetch_peer (ChannelForbidden channel_id access_hash) c =
     (case py_int (''-100'' @ py_str channel_id) of
        None \<Rightarrow> Inl ValueError
      | Some peer_id \<Rightarrow>
          if access_hash = None then Inr c
          else Inr (c\<lparr>peers_by_id := (peers_by_id c)(peer_id \<mapsto> InputPeerChannel channel_id access_hash)\<rparr>))"
| "fetch_peer OtherEntity c = Inr c"

text \<open>
  The loop. The directory is mutated in place, so an exception leaves the entries made
  before it: the state is returned beside the outcome.
\<close>

fun fetch_peers :: "entity list \<Rightarrow> client \<Rightarrow> (error + unit) \<times> client" where
  "fetch_peers [] c = (Inr (), c)"
| "fetch_peers (e # es) c =
     (case fetch_peer e c of Inl err \<Rightarrow> (Inl err, c) | Inr c' \<Rightarrow> fetch_peers es c')"

subsection \<open>\<^verbatim>\<open>Client.send\<close>\<close>

text \<open>\<^verbatim>\<open>getattr(r, "users", [])\<close> and \<^verbatim>\<open>getattr(r, "chats", [])\<close>.\<close>

fun users_of :: "response \<Rightarrow> entity list" where
  "users_of (Difference ms us users chats) = users"
| "users_of (ChannelDifference users chats) = users"
| "users_of (ChannelDifferenceTooLong users chats) = users"
| "users_of r = []"

fun chats_of :: "response \<Rightarrow> entity list" where
  "chats_of (MessagesChats chats) = chats"
| "chats_of (Difference ms us users chats) = chats"
| "chats_of (ChannelDifference users chats) = chats"
| "chats_of (ChannelDifferenceTooLong users chats) = chats"
| "chats_of r = []"

text \<open>The two wrappers: \<^verbatim>\<open>no_updates\<close>, then a takeout id that is neither \<^verbatim>\<open>None\<close> nor 0.\<close>

definition wrap_request :: "client \<Rightarrow> request \<Rightarrow> request" where
  "wrap_request c data =
     (let data1 = (if no_updates c then InvokeWithoutUpdates data else data)
      in if truthy (takeout_id c) then InvokeWithTakeout (the (takeout_id c)) data1 else data1)"

definition send :: "request \<Rightarrow> client \<Rightarrow> (error + response) \<times> client" where
  "send data c =
     (if \<not> is_started c then (Inl ConnectionError, c)
      else
        case session_send (wrap_request c data) c of
          (Inl e, c1) \<Rightarrow> (Inl e, c1)
        | (Inr r, c1) \<Rightarrow>
            (case fetch_peers (users_of r) c1 of
               (Inl e, c2) \<Rightarrow> (Inl e, c2)
             | (Inr u, c2) \<Rightarrow>
                 (case fetch_peers (chats_of r) c2 of
                    (Inl e, c3) \<Rightarrow> (Inl e, c3)
                  | (Inr u', c3) \<Rightarrow> (Inr r, c3))))"

subsection \<open>\<^verbatim>\<open>Client.resolve_peer\<close>, for a numeric peer id\<close>

text \<open>
  The remote lookup after a miss in \<open>peers_by_id\<close>. \<^verbatim>\<open>fetch_peers\<close> is applied to the
  result of \<^verbatim>\<open>users.GetUsers\<close> itself, which must be a list.
\<close>

definition remote_lookup :: "int \<Rightarrow> client \<Rightarrow> (error + unit) \<times> client" where
  "remote_lookup peer_id c =
     (if peer_id > 0 then
        (case send (GetUsers peer_id 0) c of
           (Inl e, c1) \<Rightarrow> (Inl e, c1)
         | (Inr r, c1) \<Rightarrow>
             (case r of UserVector us \<Rightarrow> fetch_peers us c1 | _ \<Rightarrow> (Inl TypeError, c1)))
      else if startswith (py_str peer_id) ''-100'' then
        (case py_int (drop 4 (py_str peer_id)) of
           None \<Rightarrow> (Inl ValueError, c)
         | Some channel_id \<Rightarrow>
             (case send (GetChannels channel_id 0) c of
                (Inl e, c1) \<Rightarrow> (Inl e, c1)
              | (Inr r, c1) \<Rightarrow> (Inr (), c1)))
      else
        (case send (GetChats (- peer_id)) c of
           (Inl e, c1) \<Rightarrow> (Inl e, c1)
         | (Inr r, c1) \<Rightarrow> (Inr (), c1)))"

definition resolve_peer :: "int \<Rightarrow> client \<Rightarrow> (error + input_peer) \<times> client" where
  "resolve_peer peer_id c =
     (case peers_by_id c peer_id of
        Some p \<Rightarrow> (Inr p, c)
      | None \<Rightarrow>
          (case remote_lookup peer_id c of
             (Inl e, c1) \<Rightarrow> (Inl e, c1)
           | (Inr u, c1) \<Rightarrow>
               (case peers_by_id c1 peer_id of
                  Some p \<Rightarrow> (Inr p, c1)
                | None \<Rightarrow> (Inl PeerIdInvalid, c1))))"

subsection \<open>Entities without an access hash\<close>

fun no_access_hash :: "entity \<Rightarrow> bool" where
  "no_access_hash (User i h u p) = (h = None)"
| "no_access_hash (Channel i h u) = (h = None)"
| "no_access_hash (ChannelForbidden i h) = (h = None)"
| "no_access_hash e = False"

fun has_hash :: "input_peer \<Rightarrow> bool" where
  "has_hash (InputPeerUser i h) = (h \<noteq> None)"
| "has_hash (InputPeerChannel i h) = (h \<noteq> None)"
| "has_hash p = True"

definition hashes_present :: "client \<Rightarrow> bool" where
  "hashes_present c =
     ((\<forall>k p. peers_by_id c k = Some p \<longrightarrow> has_hash p) \<and>
      (\<forall>k p. peers_by_username c k = Some p \<longrightarrow> has_hash p) \<and>
      (\<forall>k p. peers_by_phone c k = Some p \<longrightarrow> has_hash p))"

definition fresh_client :: client where
  "fresh_client =
     \<lparr>peers_by_id = Map.empty, peers_by_username = Map.empty, peers_by_phone = Map.empty,
      channels_pts = Map.empty, is_started = True, no_updates = False, takeout_id = None,
      replies = [], sent = [], updates_queue = [],
      dc_id = JNull, test_mode = JBool False, auth_key = None, user_id = JNull, date = JNull,
      is_bot = JNull, workdir = ''.'', session_name = ''my_account'', files = Map.empty,
      media_sessions = {}, temp_files = Map.empty\<rparr>"

subsection \<open>Skipping entities without an access hash\<close>

lemma fetch_peer_no_hash: "no_access_hash e \<Longrightarrow> fetch_peer e c = Inr c \<or> fetch_peer e c = Inl ValueError"
  by (cases e) (auto split: option.splits)

lemma fetch_peers_all_no_hash:
  "\<forall>e\<in>set es. no_access_hash e \<Longrightarrow> snd (fetch_peers es c) = c"
proof (induction es)
  case Nil
  then show ?case by simp
next
  case (Cons e es)
  then have "fetch_peer e c = Inr c \<or> fetch_peer e c = Inl ValueError"
    by (simp add: fetch_peer_no_hash)
  with Cons show ?case by auto
qed

lemma fetch_peers_filter:
  "fst (fetch_peers es c) = Inr () \<Longrightarrow>
   fetch_peers es c = fetch_peers (filter (\<lambda>e. \<not> no_access_hash e) es) c"
proof (induction es arbitrary: c)
  case Nil
  then show ?case by simp
next
  case (Cons e es)
  show ?case
  proof (cases "fetch_peer e c")
    case (Inl err)
    with Cons.prems show ?thesis by simp
  next
    case (Inr c')
    with Cons.prems have "fst (fetch_peers es c') = Inr ()"
      by simp
    then have ih: "fetch_peers es c' = fetch_peers (filter (\<lambda>e. \<not> no_access_hash e) es) c'"
      by (rule Cons.IH)
    show ?thesis
    proof (cases "no_access_hash e")
      case True
      with Inr fetch_peer_no_hash [of e c] have "c' = c" by auto
      with True Inr ih show ?thesis by simp
    next
      case False
      with Inr ih show ?thesis by simp
    qed
  qed
qed

lemma fetch_peer_hashes_present:
  "hashes_present c \<Longrightarrow> fetch_peer e c = Inr c' \<Longrightarrow> hashes_present c'"
  by (cases e) (auto simp: hashes_present_def Let_def split: option.splits if_splits)

lemma fetch_peers_hashes_present:
  "hashes_present c \<Longrightarrow> hashes_present (snd (fetch_peers es c))"
proof (induction es arbitrary: c)
  case Nil
  then show ?case by simp
next
  case (Cons e es)
  then show ?case
    by (cases "fetch_peer e c") (auto dest: fetch_peer_hashes_present)
qed


lemma digits_shift: "0 < m \<Longrightarrow> digits (m * 10 ^ length (digits n) + n) = digits m @ digits n"
proof (induction n rule: digits.induct)
  case (1 n)
  show ?case
  proof (cases "n < 10")
    case True
    then have l: "digits n = [digit_char n]"
      by (simp add: digits.simps [of n])
    from True "1.prems" have "digits (m * 10 + n) = digits m @ [digit_char n]"
      by (simp add: digits.simps [of "m * 10 + n"])
    with l show ?thesis by simp
  next
    case False
    let ?L = "length (digits (n div 10))"
    have l: "digits n = digits (n div 10) @ [digit_char (n mod 10)]"
      using False by (simp add: digits.simps [of n])
    have ih: "digits (m * 10 ^ ?L + n div 10) = digits m @ digits (n div 10)"
      using "1.IH" [OF False "1.prems"] .
    have e: "m * 10 ^ length (digits n) + n = (m * 10 ^ ?L + n div 10) * 10 + n mod 10"
      by (simp add: l algebra_simps)
    have "0 < m * 10 ^ ?L" using "1.prems" by simp
    then have "1 \<le> m * 10 ^ ?L + n div 10"
      by linarith
    then have "10 \<le> (m * 10 ^ ?L + n div 10) * 10"
      by simp
    then have big: "\<not> (m * 10 ^ ?L + n div 10) * 10 + n mod 10 < 10"
      by linarith
    have "digits ((m * 10 ^ ?L + n div 10) * 10 + n mod 10) =
        digits (m * 10 ^ ?L + n div 10) @ [digit_char (n mod 10)]"
      using big by (subst digits.simps) simp
    then have "digits (m * 10 ^ length (digits n) + n) =
        (digits m @ digits (n div 10)) @ [digit_char (n mod 10)]"
      by (simp only: e ih)
    also have "\<dots> = digits m @ digits n"
      by (simp only: l append_assoc)
    finally show ?thesis .
  qed
qed

lemma digits_100: "digits 100 = ''100''"
  by code_simp

lemma digits_digit_val: "ch \<in> set (digits n) \<Longrightarrow> digit_val ch \<noteq> None"
proof (induction n rule: digits.induct)
  case (1 n)
  show ?case
  proof (cases "n < 10")
    case True
    with "1.prems" show ?thesis
      by (simp add: digits.simps [of n] digit_val_digit_char)
  next
    case False
    with "1.prems" have "ch \<in> set (digits (n div 10)) \<or> ch = digit_char (n mod 10)"
      by (auto simp: digits.simps [of n])
    then show ?thesis
      using "1.IH" [OF False] by (auto simp: digit_val_digit_char)
  qed
qed

lemma py_int_digits: "py_int (digits n) = Some (int n)"
proof -
  obtain ch cs where d: "digits n = ch # cs"
    using digits_not_Nil [of n] by (cases "digits n") auto
  then have "digit_val ch \<noteq> None"
    using digits_digit_val [of ch n] by simp
  then have "ch \<noteq> CHR ''-''" "ch \<noteq> CHR ''+''"
    by (auto simp: digit_val_def)
  then have "py_int (digits n) = map_option int (parse_digits 0 (digits n))"
    by (simp add: py_int_def d)
  then show ?thesis
    by (simp add: parse_digits_digits)
qed

lemma channel_peer_id_str:
  assumes "py_int (''-100'' @ py_str K) = Some pid"
  shows "0 \<le> K" and "pid < 0" and "py_str pid = ''-100'' @ digits (nat K)"
proof -
  show k: "0 \<le> K"
    using assms py_int_negative_channel [of K] by (cases "K < 0") auto
  then have p: "pid = - (100 * 10 ^ length (digits (nat K)) + K)"
    using assms py_int_channel_prefix [of K] by simp
  have pos: "(0::int) < 100 * 10 ^ length (digits (nat K)) + K"
    using k by (simp add: add_pos_nonneg)
  with p show "pid < 0" by simp
  have "nat (- pid) = 100 * 10 ^ length (digits (nat K)) + nat K"
    using k p by (simp add: nat_add_distrib nat_mult_distrib nat_power_eq)
  then have "digits (nat (- pid)) = digits 100 @ digits (nat K)"
    using digits_shift [of 100 "nat K"] by simp
  with \<open>pid < 0\<close> show "py_str pid = ''-100'' @ digits (nat K)"
    by (simp add: py_str_def digits_100)
qed


lemma fetch_peers_hashless_users:
  "\<forall>e\<in>set us. \<exists>i u p. e = User i None u p \<Longrightarrow> fetch_peers us c = (Inr (), c)"
  by (induction us) auto

lemma fetch_peer_hashless_channel:
  assumes "0 \<le> k"
  shows "fetch_peer (Channel k None u) c = Inr c" and "fetch_peer (ChannelForbidden k None) c = Inr c"
  using py_int_channel_prefix [OF assms] by simp_all

lemma fetch_peers_hashless_channels:
  "\<forall>e\<in>set cs. \<exists>k u. 0 \<le> k \<and> (e = Channel k None u \<or> e = ChannelForbidden k None) \<Longrightarrow>
   fetch_peers cs c = (Inr (), c)"
  by (induction cs) (auto simp: fetch_peer_hashless_channel simp del: fetch_peer.simps)

lemma send_result:
  assumes "is_started c" and "replies c = Returns r # rs"
    and "\<And>c'. fetch_peers (users_of r) c' = (Inr (), c')"
    and "\<And>c'. fetch_peers (chats_of r) c' = (Inr (), c')"
  shows "fst (send rq c) = Inr r" and "peers_by_id (snd (send rq c)) = peers_by_id c"
  using assms by (simp_all add: send_def session_send_def Let_def)

lemma resolve_user_without_hash:
  assumes "0 < uid" and "peers_by_id c uid = None" and "is_started c"
    and "replies c = Returns (UserVector us) # rs"
    and "\<forall>e\<in>set us. \<exists>i u p. e = User i None u p"
  shows "fst (resolve_peer uid c) = Inl PeerIdInvalid"
proof -
  have s: "fst (send (GetUsers uid 0) c) = Inr (UserVector us)"
      "peers_by_id (snd (send (GetUsers uid 0) c)) = peers_by_id c"
    using assms(3,4) by (simp_all add: send_result)
  obtain c1 where c1: "send (GetUsers uid 0) c = (Inr (UserVector us), c1)"
    using s(1) by (cases "send (GetUsers uid 0) c") auto
  with s(2) have p: "peers_by_id c1 = peers_by_id c" by simp
  have "remote_lookup uid c = (Inr (), c1)"
    using assms(1,5) by (simp add: remote_lookup_def c1 fetch_peers_hashless_users)
  then show ?thesis
    using assms(2) p by (simp add: resolve_peer_def)
qed

lemma resolve_channel_without_hash:
  assumes "py_int (''-100'' @ py_str K) = Some pid" and "peers_by_id c pid = None" and "is_started c"
    and "replies c = Returns (MessagesChats cs) # rs"
    and "\<forall>e\<in>set cs. \<exists>k u. 0 \<le> k \<and> (e = Channel k None u \<or> e = ChannelForbidden k None)"
  shows "fst (resolve_peer pid c) = Inl PeerIdInvalid"
proof -
  note k = channel_peer_id_str [OF assms(1)]
  have f: "\<And>c'. fetch_peers (chats_of (MessagesChats cs)) c' = (Inr (), c')"
    using assms(5) by (simp add: fetch_peers_hashless_channels)
  have s: "fst (send (GetChannels K 0) c) = Inr (MessagesChats cs)"
      "peers_by_id (snd (send (GetChannels K 0) c)) = peers_by_id c"
    using assms(3,4) f by (simp_all add: send_result)
  obtain c1 where c1: "send (GetChannels K 0) c = (Inr (MessagesChats cs), c1)"
    using s(1) by (cases "send (GetChannels K 0) c") auto
  with s(2) have p: "peers_by_id c1 = peers_by_id c" by simp
  have d: "py_int (digits (nat K)) = Some K"
    using k(1) by (simp add: py_int_digits)
  have "remote_lookup pid c = (Inr (), c1)"
    using k(2) by (simp add: remote_lookup_def startswith_def k(3) d c1)
  then show ?thesis
    using assms(2) p by (simp add: resolve_peer_def)
qed


lemma fetch_peers_append:
  "fetch_peers (es @ es') c =
     (case fetch_peers es c of (Inl err, c1) \<Rightarrow> (Inl err, c1) | (Inr u, c1) \<Rightarrow> fetch_peers es' c1)"
  by (induction es arbitrary: c) (auto split: sum.splits)

lemma resolve_peer_cached: "peers_by_id c k = Some p \<Longrightarrow> resolve_peer k c = (Inr p, c)"
  by (simp add: resolve_peer_def)

text \<open>
  Claim C4. A user or channel entity whose access hash is absent is skipped by
  \<^verbatim>\<open>fetch_peers\<close>: a list of such entities leaves the client state as it was; whenever
  the call returns, its result is the one for the list without them; every cached
  reference keeps an access hash. A later \<^verbatim>\<open>resolve_peer\<close> of the id of such an entity
  (a user id, or the remapped id of a channel) that was not cached before raises
  \<^verbatim>\<open>PeerIdInvalid\<close>, when the remote lookup it makes is answered with entities that
  have no access hash either.
\<close>

theorem fetch_peers_skips_absent_access_hash:
  "((\<forall>e\<in>set es. no_access_hash e) \<longrightarrow> snd (fetch_peers es c) = c) \<and>
   (fst (fetch_peers es c) = Inr () \<longrightarrow>
      fetch_peers es c = fetch_peers (filter (\<lambda>e. \<not> no_access_hash e) es) c) \<and>
   (hashes_present c \<longrightarrow> hashes_present (snd (fetch_peers es c))) \<and>
   ((\<forall>e\<in>set es. no_access_hash e) \<and> 0 < uid \<and> peers_by_id c uid = None \<and> is_started c \<and>
    replies c = Returns (UserVector us) # rs \<and> (\<forall>e\<in>set us. \<exists>i u p. e = User i None u p) \<longrightarrow>
      fst (resolve_peer uid (snd (fetch_peers es c))) = Inl PeerIdInvalid) \<and>
   ((\<forall>e\<in>set es. no_access_hash e) \<and> py_int (''-100'' @ py_str K) = Some pid \<and>
    peers_by_id c pid = None \<and> is_started c \<and> replies c = Returns (MessagesChats cs) # rs \<and>
    (\<forall>e\<in>set cs. \<exists>k u. 0 \<le> k \<and> (e = Channel k None u \<or> e = ChannelForbidden k None)) \<longrightarrow>
      fst (resolve_peer pid (snd (fetch_peers es c))) = Inl PeerIdInvalid)"
proof (intro conjI impI)
  assume "\<forall>e\<in>set es. no_access_hash e"
  then show "snd (fetch_peers es c) = c"
    by (rule fetch_peers_all_no_hash)
next
  assume "fst (fetch_peers es c) = Inr ()"
  then show "fetch_peers es c = fetch_peers (filter (\<lambda>e. \<not> no_access_hash e) es) c"
    by (rule fetch_peers_filter)
next
  assume "hashes_present c"
  then show "hashes_present (snd (fetch_peers es c))"
    by (rule fetch_peers_hashes_present)
next
  assume a: "(\<forall>e\<in>set es. no_access_hash e) \<and> 0 < uid \<and> peers_by_id c uid = None \<and> is_started c \<and>
    replies c = Returns (UserVector us) # rs \<and> (\<forall>e\<in>set us. \<exists>i u p. e = User i None u p)"
  then have "snd (fetch_peers es c) = c"
    by (simp add: fetch_peers_all_no_hash)
  with a show "fst (resolve_peer uid (snd (fetch_peers es c))) = Inl PeerIdInvalid"
    by (simp add: resolve_user_without_hash [of uid c us rs])
next
  assume a: "(\<forall>e\<in>set es. no_access_hash e) \<and> py_int (''-100'' @ py_str K) = Some pid \<and>
    peers_by_id c pid = None \<and> is_started c \<and> replies c = Returns (MessagesChats cs) # rs \<and>
    (\<forall>e\<in>set cs. \<exists>k u. 0 \<le> k \<and> (e = Channel k None u \<or> e = ChannelForbidden k None))"
  then have "snd (fetch_peers es c) = c"
    by (simp add: fetch_peers_all_no_hash)
  moreover have "fst (resolve_peer pid c) = Inl PeerIdInvalid"
    using a by (intro resolve_channel_without_hash [of K pid c cs rs]) simp_all
  ultimately show "fst (resolve_peer pid (snd (fetch_peers es c))) = Inl PeerIdInvalid"
    by simp
qed

lemma py_int_1005: "py_int (''-100'' @ py_str 5) = Some (- 1005)"
  by (simp add: py_int_def py_str_def digits.simps digit_char_def digit_val_def)

theorem fetch_peers_skips_absent_access_hash_witness:
  "snd (fetch_peers [User 7 None (Some ''Bob'') (Some ''390001''), Channel 5 None None]
          (fresh_client\<lparr>replies := [Returns (UserVector [User 7 None None None])]\<rparr>)) =
     fresh_client\<lparr>replies := [Returns (UserVector [User 7 None None None])]\<rparr> \<and>
   fetch_peers [User 7 None (Some ''Bob'') None, Chat 3] fresh_client = fetch_peers [Chat 3] fresh_client \<and>
   hashes_present (snd (fetch_peers [User 7 (Some 99) (Some ''Bob'') None] fresh_client)) \<and>
   fst (resolve_peer 7 (snd (fetch_peers [User 7 None (Some ''Bob'') (Some ''390001''), Channel 5 None None]
          (fresh_client\<lparr>replies := [Returns (UserVector [User 7 None None None])]\<rparr>)))) = Inl PeerIdInvalid \<and>
   fst (resolve_peer (- 1005) (snd (fetch_peers [Channel 5 None None]
          (fresh_client\<lparr>replies := [Returns (MessagesChats [Channel 5 None None])]\<rparr>)))) = Inl PeerIdInvalid"
proof -
  let ?es = "[User 7 None (Some ''Bob'') (Some ''390001''), Channel 5 None None]"
  let ?c = "fresh_client\<lparr>replies := [Returns (UserVector [User 7 None None None])]\<rparr>"
  let ?d = "fresh_client\<lparr>replies := [Returns (MessagesChats [Channel 5 None None])]\<rparr>"
  note t1 = fetch_peers_skips_absent_access_hash [of ?es ?c 7 "[User 7 None None None]" "[]" 5 "- 1005" "[]"]
  note t2 = fetch_peers_skips_absent_access_hash
    [of "[User 7 None (Some ''Bob'') None, Chat 3]" fresh_client 7 "[]" "[]" 5 "- 1005" "[]"]
  note t3 = fetch_peers_skips_absent_access_hash
    [of "[User 7 (Some 99) (Some ''Bob'') None]" fresh_client 7 "[]" "[]" 5 "- 1005" "[]"]
  note t4 = fetch_peers_skips_absent_access_hash
    [of "[Channel 5 None None]" ?d 7 "[]" "[]" 5 "- 1005" "[Channel 5 None None]"]
  have h1: "\<forall>e\<in>set ?es. no_access_hash e"
    by simp
  have a: "snd (fetch_peers ?es ?c) = ?c"
    using t1 h1 by blast
  have h2: "fst (fetch_peers [User 7 None (Some ''Bob'') None, Chat 3] fresh_client) = Inr ()"
    by simp
  have b: "fetch_peers [User 7 None (Some ''Bob'') None, Chat 3] fresh_client = fetch_peers [Chat 3] fresh_client"
    using t2 h2 by simp
  have h3: "hashes_present fresh_client"
    by (simp add: hashes_present_def fresh_client_def)
  have c: "hashes_present (snd (fetch_peers [User 7 (Some 99) (Some ''Bob'') None] fresh_client))"
    using t3 h3 by blast
  have h4: "(\<forall>e\<in>set ?es. no_access_hash e) \<and> (0::int) < 7 \<and> peers_by_id ?c 7 = None \<and> is_started ?c \<and>
      replies ?c = Returns (UserVector [User 7 None None None]) # [] \<and>
      (\<forall>e\<in>set [User 7 None None None]. \<exists>i u p. e = User i None u p)"
    by (simp add: fresh_client_def)
  have d: "fst (resolve_peer 7 (snd (fetch_peers ?es ?c))) = Inl PeerIdInvalid"
    using t1 h4 by blast
  have h5: "(\<forall>e\<in>set [Channel 5 None None]. no_access_hash e) \<and> py_int (''-100'' @ py_str 5) = Some (- 1005) \<and>
      peers_by_id ?d (- 1005) = None \<and> is_started ?d \<and>
      replies ?d = Returns (MessagesChats [Channel 5 None None]) # [] \<and>
      (\<forall>e\<in>set [Channel 5 None None]. \<exists>k u. 0 \<le> k \<and> (e = Channel k None u \<or> e = ChannelForbidden k None))"
    using py_int_1005 by (simp add: fresh_client_def)
  have e: "fst (resolve_peer (- 1005) (snd (fetch_peers [Channel 5 None None] ?d))) = Inl PeerIdInvalid"
    using t4 h5 by blast
  from a b c d e show ?thesis
    by blast
qed

subsection \<open>Peer ids of channels and basic chats\<close>

lemma fetch_peers_snoc:
  "fst (fetch_peers es c) = Inr () \<Longrightarrow>
   fetch_peers (es @ [e]) c =
     (case fetch_peer e (snd (fetch_peers es c)) of
        Inl err \<Rightarrow> (Inl err, snd (fetch_peers es c))
      | Inr c' \<Rightarrow> (Inr (), c'))"
  by (cases "fetch_peers es c") (auto simp: fetch_peers_append split: sum.splits)

lemma fetch_peer_channel_stored:
  assumes "py_int (''-100'' @ py_str K) = Some pid"
  shows "\<exists>c'. fetch_peer (Channel K (Some h) u) c = Inr c' \<and>
               peers_by_id c' pid = Some (InputPeerChannel K (Some h))"
    and "\<exists>c'. fetch_peer (ChannelForbidden K (Some h)) c = Inr c' \<and>
               peers_by_id c' pid = Some (InputPeerChannel K (Some h))"
  using assms by (auto simp: Let_def split: option.splits)

lemma fetch_peer_chat_stored:
  "\<exists>c'. fetch_peer (Chat C) c = Inr c' \<and> peers_by_id c' (- C) = Some (InputPeerChat C)"
  "\<exists>c'. fetch_peer (ChatForbidden C) c = Inr c' \<and> peers_by_id c' (- C) = Some (InputPeerChat C)"
  by simp_all

text \<open>
  Claim C5. A channel entity with id \<open>K\<close> and an access hash \<open>h\<close>, passed to
  \<^verbatim>\<open>fetch_peers\<close> (after entities that did not raise), is stored under
  \<^verbatim>\<open>int("-100" + str(K))\<close>, and \<^verbatim>\<open>resolve_peer\<close> of that id returns the reference
  with channel id \<open>K\<close> and access hash \<open>h\<close>, without any remote call. The remapped id
  exists for every \<open>K \<ge> 0\<close>: it is the negative number written 100 followed by the
  digits of \<open>K\<close>. A basic chat with id \<open>C\<close> is stored under \<open>- C\<close>.
\<close>

theorem channel_and_chat_peer_ids:
  "(fst (fetch_peers es c) = Inr () \<and> py_int (''-100'' @ py_str K) = Some pid \<and>
    (e = Channel K (Some h) u \<or> e = ChannelForbidden K (Some h)) \<longrightarrow>
      fst (fetch_peers (es @ [e]) c) = Inr () \<and>
      peers_by_id (snd (fetch_peers (es @ [e]) c)) pid = Some (InputPeerChannel K (Some h)) \<and>
      resolve_peer pid (snd (fetch_peers (es @ [e]) c)) =
        (Inr (InputPeerChannel K (Some h)), snd (fetch_peers (es @ [e]) c))) \<and>
   (0 \<le> K \<longrightarrow> py_int (''-100'' @ py_str K) = Some (- (100 * 10 ^ length (digits (nat K)) + K))) \<and>
   (fst (fetch_peers es c) = Inr () \<and> (e' = Chat C \<or> e' = ChatForbidden C) \<longrightarrow>
      fst (fetch_peers (es @ [e']) c) = Inr () \<and>
      peers_by_id (snd (fetch_peers (es @ [e']) c)) (- C) = Some (InputPeerChat C))"
proof (intro conjI impI)
  assume a: "fst (fetch_peers es c) = Inr () \<and> py_int (''-100'' @ py_str K) = Some pid \<and>
    (e = Channel K (Some h) u \<or> e = ChannelForbidden K (Some h))"
  then obtain c' where c': "fetch_peer e (snd (fetch_peers es c)) = Inr c'"
      "peers_by_id c' pid = Some (InputPeerChannel K (Some h))"
    using fetch_peer_channel_stored(1) [where c = "snd (fetch_peers es c)" and h = h and u = u and K = K and pid = pid]
      fetch_peer_channel_stored(2) [where c = "snd (fetch_peers es c)" and h = h and K = K and pid = pid]
    by blast
  with a have r: "fetch_peers (es @ [e]) c = (Inr (), c')"
    by (simp add: fetch_peers_snoc)
  then show "fst (fetch_peers (es @ [e]) c) = Inr ()"
    by simp
  from r c' show "peers_by_id (snd (fetch_peers (es @ [e]) c)) pid = Some (InputPeerChannel K (Some h))"
    by simp
  from r c' show "resolve_peer pid (snd (fetch_peers (es @ [e]) c)) =
        (Inr (InputPeerChannel K (Some h)), snd (fetch_peers (es @ [e]) c))"
    by (simp add: resolve_peer_cached)
next
  assume "0 \<le> K"
  then show "py_int (''-100'' @ py_str K) = Some (- (100 * 10 ^ length (digits (nat K)) + K))"
    by (rule py_int_channel_prefix)
next
  assume a: "fst (fetch_peers es c) = Inr () \<and> (e' = Chat C \<or> e' = ChatForbidden C)"
  then obtain c' where c': "fetch_peer e' (snd (fetch_peers es c)) = Inr c'"
      "peers_by_id c' (- C) = Some (InputPeerChat C)"
    using fetch_peer_chat_stored(1) [where c = "snd (fetch_peers es c)" and C = C]
      fetch_peer_chat_stored(2) [where c = "snd (fetch_peers es c)" and C = C]
    by blast
  with a have r: "fetch_peers (es @ [e']) c = (Inr (), c')"
    by (simp add: fetch_peers_snoc)
  then show "fst (fetch_peers (es @ [e']) c) = Inr ()"
    by simp
  from r c' show "peers_by_id (snd (fetch_peers (es @ [e']) c)) (- C) = Some (InputPeerChat C)"
    by simp
qed

theorem channel_and_chat_peer_ids_witness:
  "peers_by_id (snd (fetch_peers ([User 7 (Some 99) None None] @ [Channel 5 (Some 42) (Some ''News'')]) fresh_client))
      (- 1005) = Some (InputPeerChannel 5 (Some 42)) \<and>
   fst (resolve_peer (- 1005)
      (snd (fetch_peers ([User 7 (Some 99) None None] @ [Channel 5 (Some 42) (Some ''News'')]) fresh_client))) =
      Inr (InputPeerChannel 5 (Some 42)) \<and>
   py_int (''-100'' @ py_str 5) = Some (- (100 * 10 ^ length (digits (nat 5)) + 5)) \<and>
   peers_by_id (snd (fetch_peers ([User 7 (Some 99) None None] @ [Chat 12]) fresh_client)) (- 12) =
      Some (InputPeerChat 12)"
proof -
  note t = channel_and_chat_peer_ids [of "[User 7 (Some 99) None None]" fresh_client 5 "- 1005"
      "Channel 5 (Some 42) (Some ''News'')" 42 "Some ''News''" "Chat 12" 12]
  have h1: "fst (fetch_peers [User 7 (Some 99) None None] fresh_client) = Inr () \<and>
      py_int (''-100'' @ py_str 5) = Some (- 1005) \<and>
      (Channel 5 (Some 42) (Some ''News'') = Channel 5 (Some 42) (Some ''News'') \<or>
       Channel 5 (Some 42) (Some ''News'') = ChannelForbidden 5 (Some 42))"
    using py_int_1005 by simp
  have h2: "(0::int) \<le> 5"
    by simp
  have h3: "fst (fetch_peers [User 7 (Some 99) None None] fresh_client) = Inr () \<and>
      (Chat 12 = Chat 12 \<or> Chat 12 = ChatForbidden 12)"
    by simp
  from t h1 have a: "peers_by_id (snd (fetch_peers ([User 7 (Some 99) None None] @
        [Channel 5 (Some 42) (Some ''News'')]) fresh_client)) (- 1005) = Some (InputPeerChannel 5 (Some 42))"
    by blast
  from t h1 have "resolve_peer (- 1005) (snd (fetch_peers ([User 7 (Some 99) None None] @
        [Channel 5 (Some 42) (Some ''News'')]) fresh_client)) =
      (Inr (InputPeerChannel 5 (Some 42)), snd (fetch_peers ([User 7 (Some 99) None None] @
        [Channel 5 (Some 42) (Some ''News'')]) fresh_client))"
    by blast
  then have b: "fst (resolve_peer (- 1005) (snd (fetch_peers ([User 7 (Some 99) None None] @
        [Channel 5 (Some 42) (Some ''News'')]) fresh_client))) = Inr (InputPeerChannel 5 (Some 42))"
    by (simp only: fst_conv)
  from t h2 have c: "py_int (''-100'' @ py_str 5) = Some (- (100 * 10 ^ length (digits (nat 5)) + 5))"
    by blast
  from t h3 have d: "peers_by_id (snd (fetch_peers ([User 7 (Some 99) None None] @ [Chat 12]) fresh_client))
      (- 12) = Some (InputPeerChat 12)"
    by blast
  from a b c d show ?thesis
    by blast
qed

section \<open>The updates worker\<close>

text \<open>
  \<^verbatim>\<open>Client.updates_worker\<close> takes envelopes from \<^verbatim>\<open>updates_queue\<close> until it reads
  \<^verbatim>\<open>None\<close>. \<open>Updates updates users chats\<close> is the combined envelope
  (\<^verbatim>\<open>types.Update\<close>, \<^verbatim>\<open>types.UpdatesCombined\<close>); the short message envelopes carry
  \<open>pts\<close>, \<open>pts_count\<close> and \<open>date\<close>.
\<close>

datatype envelope =
    Updates "update list" "entity list" "entity list"
  | UpdateShortMessage int int int
  | UpdateShortChatMessage int int int
  | UpdateShort update
  | UpdatesTooLong
  | OtherEnvelope

text \<open>\<^verbatim>\<open>getattr(update, name, None)\<close> for the four attributes read.\<close>

fun update_message :: "update \<Rightarrow> message option" where
  "update_message (UpdateNewChannelMessage m pts pts_count) = Some m"
| "update_message (UpdateNewMessage m pts pts_count) = Some m"
| "update_message (UpdateChannelTooLong channel_id pts) = None"
| "update_message (UpdateOther m channel_id pts pts_count) = m"

fun update_channel_id :: "update \<Rightarrow> int option" where
  "update_channel_id (UpdateChannelTooLong channel_id pts) = Some channel_id"
| "update_channel_id (UpdateOther m channel_id pts pts_count) = channel_id"
| "update_channel_id u = None"

fun update_pts :: "update \<Rightarrow> int option" where
  "update_pts (UpdateNewChannelMessage m pts pts_count) = Some pts"
| "update_pts (UpdateNewMessage m pts pts_count) = Some pts"
| "update_pts (UpdateChannelTooLong channel_id pts) = pts"
| "update_pts (UpdateOther m channel_id pts pts_count) = pts"

text \<open>\<^verbatim>\<open>getattr(getattr(message, "to_id", None), "channel_id", None)\<close>.\<close>

fun message_channel_id :: "message option \<Rightarrow> int option" where
  "message_channel_id (Some (Message msg_id channel_id)) = channel_id"
| "message_channel_id m = None"

definition channel_id_of :: "update \<Rightarrow> int option" where
  "channel_id_of update = py_or (message_channel_id (update_message update)) (update_channel_id update)"

text \<open>
  The difference fetched for a new channel message that is not empty. \<^verbatim>\<open>ChannelPrivate\<close>
  is passed over, raised by \<^verbatim>\<open>resolve_peer\<close> or by \<^verbatim>\<open>send\<close>; any other exception
  leaves the loop. The result is the pair \<^verbatim>\<open>(updates.users, updates.chats)\<close>.
\<close>

fun channel_difference ::
  "update \<Rightarrow> entity list \<times> entity list \<Rightarrow> client \<Rightarrow> (error + entity list \<times> entity list) \<times> client" where
  "channel_difference (UpdateNewChannelMessage (Message msg_id to_channel) pts pts_count) (users, chats) c =
     (case py_int (''-100'' @ py_str_opt (channel_id_of (UpdateNewChannelMessage (Message msg_id to_channel) pts pts_count))) of
        None \<Rightarrow> (Inl ValueError, c)
      | Some peer_id \<Rightarrow>
          (case resolve_peer peer_id c of
             (Inl e, c1) \<Rightarrow> if e = ChannelPrivate then (Inr (users, chats), c1) else (Inl e, c1)
           | (Inr channel, c1) \<Rightarrow>
               (case send (GetChannelDifference channel msg_id msg_id (pts - pts_count) pts) c1 of
                  (Inl e, c2) \<Rightarrow> if e = ChannelPrivate then (Inr (users, chats), c2) else (Inl e, c2)
                | (Inr diff, c2) \<Rightarrow>
                    (case diff of
                       ChannelDifferenceEmpty \<Rightarrow> (Inr (users, chats), c2)
                     | ChannelDifference us cs \<Rightarrow> (Inr (users @ us, chats @ cs), c2)
                     | ChannelDifferenceTooLong us cs \<Rightarrow> (Inr (users @ us, chats @ cs), c2)
                     | Difference ms ups us cs \<Rightarrow> (Inr (users @ us, chats @ cs), c2)
                     | _ \<Rightarrow> (Inl AttributeError, c2)))))"
| "channel_difference update (users, chats) c = (Inr (users, chats), c)"

text \<open>
  The sequence history of one channel: \<^verbatim>\<open>append(pts)\<close>, then the slice \<^verbatim>\<open>[25:]\<close> when
  the list has more than 50 entries.
\<close>

definition record_pts :: "int list \<Rightarrow> int \<Rightarrow> int list" where
  "record_pts history pts =
     (let history1 = history @ [pts]
      in if length history1 > 50 then drop 25 history1 else history1)"

text \<open>
  The duplicate filter; the result is \<^term>\<open>True\<close> when the loop takes \<^verbatim>\<open>continue\<close>,
  that is when the update is not delivered.
\<close>

definition track_pts :: "int option \<Rightarrow> int option \<Rightarrow> client \<Rightarrow> bool \<times> client" where
  "track_pts channel_id pts c =
     (if truthy channel_id \<and> truthy pts then
        let history = (case channels_pts c (the channel_id) of None \<Rightarrow> [] | Some h \<Rightarrow> h)
        in if the pts \<in> set history
           then (True, c\<lparr>channels_pts := (channels_pts c)(the channel_id \<mapsto> history)\<rparr>)
           else (False, c\<lparr>channels_pts := (channels_pts c)(the channel_id \<mapsto> record_pts history (the pts))\<rparr>)
      else (False, c))"

text \<open>\<^verbatim>\<open>self.dispatcher.updates_queue.put_nowait(item)\<close>; the queue is unbounded.\<close>

definition deliver :: "update \<times> entity list \<times> entity list \<Rightarrow> client \<Rightarrow> client" where
  "deliver item c = c\<lparr>updates_queue := updates_queue c @ [item]\<rparr>"

definition process_update ::
  "update \<Rightarrow> entity list \<times> entity list \<Rightarrow> client \<Rightarrow> (error + entity list \<times> entity list) \<times> client" where
  "process_update update ents c =
     (case channel_difference update ents c of
        (Inl e, c1) \<Rightarrow> (Inl e, c1)
      | (Inr (users, chats), c1) \<Rightarrow>
          (case track_pts (channel_id_of update) (update_pts update) c1 of
             (True, c2) \<Rightarrow> (Inr (users, chats), c2)
           | (False, c2) \<Rightarrow> (Inr (users, chats), deliver (update, users, chats) c2)))"

fun process_updates ::
  "update list \<Rightarrow> entity list \<times> entity list \<Rightarrow> client \<Rightarrow> (error + unit) \<times> client" where
  "process_updates [] ents c = (Inr (), c)"
| "process_updates (update # rest) ents c =
     (case process_update update ents c of
        (Inl e, c1) \<Rightarrow> (Inl e, c1)
      | (Inr ents', c1) \<Rightarrow> process_updates rest ents' c1)"

text \<open>The short message envelopes: one \<^verbatim>\<open>updates.GetDifference\<close> call.\<close>

definition short_message :: "int \<Rightarrow> int \<Rightarrow> int \<Rightarrow> client \<Rightarrow> (error + unit) \<times> client" where
  "short_message pts pts_count msg_date c =
     (case send (GetDifference (pts - pts_count) msg_date (- 1)) c of
        (Inl e, c1) \<Rightarrow> (Inl e, c1)
      | (Inr diff, c1) \<Rightarrow>
          (case diff of
             Difference new_messages other_updates users chats \<Rightarrow>
               (case new_messages of
                  m # ms \<Rightarrow> (Inr (), deliver (UpdateNewMessage m pts pts_count, users, chats) c1)
                | [] \<Rightarrow>
                    (case other_updates of
                       u # us \<Rightarrow> (Inr (), deliver (u, [], []) c1)
                     | [] \<Rightarrow> (Inl IndexError, c1)))
           | _ \<Rightarrow> (Inl AttributeError, c1)))"

text \<open>The body of the \<^verbatim>\<open>try\<close> for one envelope.\<close>

fun handle_envelope :: "envelope \<Rightarrow> client \<Rightarrow> (error + unit) \<times> client" where
  "handle_envelope (Updates updates users chats) c =
     (case fetch_peers users c of
        (Inl e, c1) \<Rightarrow> (Inl e, c1)
      | (Inr u, c1) \<Rightarrow>
          (case fetch_peers chats c1 of
             (Inl e, c2) \<Rightarrow> (Inl e, c2)
           | (Inr u', c2) \<Rightarrow> process_updates updates (users, chats) c2))"
| "handle_envelope (UpdateShortMessage pts pts_count msg_date) c = short_message pts pts_count msg_date c"
| "handle_envelope (UpdateShortChatMessage pts pts_count msg_date) c = short_message pts pts_count msg_date c"
| "handle_envelope (UpdateShort update) c = (Inr (), deliver (update, [], []) c)"
| "handle_envelope UpdatesTooLong c = (Inr (), c)"
| "handle_envelope OtherEnvelope c = (Inr (), c)"

text \<open>
  The worker: every exception of the body is logged and the loop goes on; \<^verbatim>\<open>None\<close>
  stops it. The argument is what the queue holds.
\<close>

fun updates_worker :: "envelope option list \<Rightarrow> client \<Rightarrow> client" where
  "updates_worker [] c = c"
| "updates_worker (None # queue) c = c"
| "updates_worker (Some updates # queue) c = updates_worker queue (snd (handle_envelope updates c))"


text \<open>The history recorded for a channel (empty when the channel has no entry).\<close>

definition pts_history :: "client \<Rightarrow> int \<Rightarrow> int list" where
  "pts_history c channel_id = (case channels_pts c channel_id of None \<Rightarrow> [] | Some h \<Rightarrow> h)"

text \<open>An update of some other type with the attributes \<^verbatim>\<open>channel_id\<close> and \<^verbatim>\<open>pts\<close>.\<close>

definition channel_update :: "int \<Rightarrow> int \<Rightarrow> update" where
  "channel_update channel_id pts = UpdateOther None (Some channel_id) (Some pts) (Some 1)"

subsection \<open>What the network calls leave alone\<close>

text \<open>The calls below change the directory, the script and the log only.\<close>

definition frame :: "client \<Rightarrow> client \<Rightarrow> bool" where
  "frame c c' =
     (channels_pts c' = channels_pts c \<and> updates_queue c' = updates_queue c \<and>
      is_started c' = is_started c)"

lemma frame_refl: "frame c c"
  by (simp add: frame_def)

lemma frame_trans: "frame c c1 \<Longrightarrow> frame c1 c2 \<Longrightarrow> frame c c2"
  by (simp add: frame_def)

lemma fetch_peer_frame: "fetch_peer e c = Inr c' \<Longrightarrow> frame c c'"
  by (cases e) (auto simp: frame_def Let_def split: option.splits if_splits)

lemma fetch_peers_frame: "fetch_peers es c = (r, c') \<Longrightarrow> frame c c'"
proof (induction es arbitrary: c)
  case Nil
  then show ?case by (simp add: frame_def)
next
  case (Cons e es)
  show ?case
  proof (cases "fetch_peer e c")
    case (Inl err)
    with Cons.prems show ?thesis by (simp add: frame_def)
  next
    case (Inr c1)
    with Cons.prems have "fetch_peers es c1 = (r, c')" by simp
    then have "frame c1 c'" by (rule Cons.IH)
    with fetch_peer_frame [OF Inr] show ?thesis by (rule frame_trans)
  qed
qed

lemma session_send_frame: "session_send rq c = (r, c') \<Longrightarrow> frame c c'"
  by (auto simp: session_send_def frame_def split: list.splits)

lemma send_frame: "send rq c = (r, c') \<Longrightarrow> frame c c'"
  unfolding send_def
  by (auto split: if_splits prod.splits sum.splits
      dest!: session_send_frame fetch_peers_frame intro: frame_refl frame_trans)

lemma remote_lookup_frame: "remote_lookup k c = (r, c') \<Longrightarrow> frame c c'"
  unfolding remote_lookup_def
  by (auto split: if_splits prod.splits sum.splits response.splits option.splits
      dest!: send_frame fetch_peers_frame intro: frame_refl frame_trans)

lemma resolve_peer_frame: "resolve_peer k c = (r, c') \<Longrightarrow> frame c c'"
  unfolding resolve_peer_def
  by (auto split: prod.splits sum.splits option.splits
      dest!: remote_lookup_frame intro: frame_refl)

lemma channel_difference_frame: "channel_difference u ents c = (r, c') \<Longrightarrow> frame c c'"
proof (induction u ents c rule: channel_difference.induct)
  case (1 msg_id to_channel pts pts_count users chats c)
  then show ?case
    by (auto split: option.splits prod.splits sum.splits if_splits response.splits
        dest!: resolve_peer_frame send_frame intro: frame_refl frame_trans)
qed (auto intro: frame_refl)


subsection \<open>The duplicate filter\<close>

lemma record_pts_length:
  "length (record_pts h p) = (if 50 \<le> length h then length h - 24 else Suc (length h))"
  by (auto simp: record_pts_def Let_def)

lemma record_pts_short: "length h < 50 \<Longrightarrow> record_pts h p = h @ [p]"
  by (simp add: record_pts_def Let_def)

lemma record_pts_full: "50 \<le> length h \<Longrightarrow> record_pts h p = drop 25 (h @ [p])"
  by (simp add: record_pts_def Let_def)

lemma record_pts_mem: "p \<in> set (record_pts h p)"
  by (simp add: record_pts_def Let_def)

lemma record_pts_subset: "set (record_pts h p) \<subseteq> insert p (set h)"
  by (auto simp: record_pts_def Let_def dest: in_set_dropD)

lemma foldl_record_pts_short:
  "length h + length ps \<le> 50 \<Longrightarrow> foldl record_pts h ps = h @ ps"
  by (induction ps arbitrary: h) (simp_all add: record_pts_short)

lemma track_pts_channel:
  "cid \<noteq> 0 \<Longrightarrow> p \<noteq> 0 \<Longrightarrow>
   track_pts (Some cid) (Some p) c =
     (if p \<in> set (pts_history c cid)
      then (True, c\<lparr>channels_pts := (channels_pts c)(cid \<mapsto> pts_history c cid)\<rparr>)
      else (False, c\<lparr>channels_pts := (channels_pts c)(cid \<mapsto> record_pts (pts_history c cid) p)\<rparr>))"
  by (simp add: track_pts_def truthy_def pts_history_def Let_def)

lemma process_update_seen:
  assumes "process_update u ents c = (Inr ents', c')"
    and "channel_id_of u = Some cid" and "cid \<noteq> 0" and "update_pts u = Some p" and "p \<noteq> 0"
    and "p \<in> set (pts_history c cid)"
  shows "pts_history c' cid = pts_history c cid" and "updates_queue c' = updates_queue c"
proof -
  obtain r c1 where d: "channel_difference u ents c = (r, c1)"
    by (cases "channel_difference u ents c") auto
  then have f: "frame c c1" by (rule channel_difference_frame)
  then have h: "pts_history c1 cid = pts_history c cid"
    by (simp add: frame_def pts_history_def)
  from assms(1) d obtain us cs where r: "r = Inr (us, cs)"
    by (cases r) (auto simp: process_update_def)
  have t: "track_pts (Some cid) (Some p) c1 =
      (True, c1\<lparr>channels_pts := (channels_pts c1)(cid \<mapsto> pts_history c1 cid)\<rparr>)"
    using assms(3,5,6) h by (simp add: track_pts_channel)
  from assms(1) have c': "c' = c1\<lparr>channels_pts := (channels_pts c1)(cid \<mapsto> pts_history c1 cid)\<rparr>"
    by (simp add: process_update_def d r assms(2,4) t)
  show "pts_history c' cid = pts_history c cid"
    by (simp add: c' pts_history_def h [unfolded pts_history_def])
  show "updates_queue c' = updates_queue c"
    using f by (simp add: c' frame_def)
qed

lemma process_update_fresh:
  assumes "process_update u ents c = (Inr ents', c')"
    and "channel_id_of u = Some cid" and "cid \<noteq> 0" and "update_pts u = Some p" and "p \<noteq> 0"
    and "p \<notin> set (pts_history c cid)"
  shows "pts_history c' cid = record_pts (pts_history c cid) p"
    and "updates_queue c' = updates_queue c @ [(u, ents')]"
proof -
  obtain r c1 where d: "channel_difference u ents c = (r, c1)"
    by (cases "channel_difference u ents c") auto
  then have f: "frame c c1" by (rule channel_difference_frame)
  then have h: "pts_history c1 cid = pts_history c cid"
    by (simp add: frame_def pts_history_def)
  from assms(1) d obtain us cs where r: "r = Inr (us, cs)"
    by (cases r) (auto simp: process_update_def)
  have t: "track_pts (Some cid) (Some p) c1 =
      (False, c1\<lparr>channels_pts := (channels_pts c1)(cid \<mapsto> record_pts (pts_history c1 cid) p)\<rparr>)"
    using assms(3,5,6) h by (simp add: track_pts_channel)
  from assms(1) have c': "c' = deliver (u, us, cs)
      (c1\<lparr>channels_pts := (channels_pts c1)(cid \<mapsto> record_pts (pts_history c1 cid) p)\<rparr>)"
    and e: "ents' = (us, cs)"
    by (auto simp: process_update_def d r assms(2,4) t)
  show "pts_history c' cid = record_pts (pts_history c cid) p"
    by (simp add: c' deliver_def pts_history_def h [unfolded pts_history_def])
  show "updates_queue c' = updates_queue c @ [(u, ents')]"
    using f by (simp add: c' e deliver_def frame_def)
qed

text \<open>A run of the loop over updates of one channel whose pts values are new and distinct.\<close>

lemma process_updates_fresh:
  assumes "process_updates us ents c = (Inr (), c')"
    and "map channel_id_of us = map (\<lambda>p. Some cid) ps" and "map update_pts us = map Some ps"
    and "cid \<noteq> 0" and "0 \<notin> set ps" and "distinct ps" and "set ps \<inter> set (pts_history c cid) = {}"
  shows "pts_history c' cid = foldl record_pts (pts_history c cid) ps \<and>
         length (updates_queue c') = length (updates_queue c) + length ps"
  using assms
proof (induction us arbitrary: ents c ps)
  case Nil
  then show ?case by simp
next
  case (Cons u us)
  from Cons.prems(2) obtain p ps' where ps: "ps = p # ps'"
    by (cases ps) auto
  from Cons.prems(1) obtain ents1 c1 where
    s: "process_update u ents c = (Inr ents1, c1)" and rest: "process_updates us ents1 c1 = (Inr (), c')"
    by (auto split: prod.splits sum.splits)
  have k: "channel_id_of u = Some cid" "update_pts u = Some p"
    using Cons.prems(2,3) ps by simp_all
  have p: "p \<noteq> 0" "p \<notin> set (pts_history c cid)"
    using Cons.prems(5,7) ps by auto
  note st = process_update_fresh [OF s k(1) Cons.prems(4) k(2) p]
  have "set (pts_history c1 cid) \<subseteq> insert p (set (pts_history c cid))"
    using st(1) record_pts_subset by simp
  then have disj: "set ps' \<inter> set (pts_history c1 cid) = {}"
    using Cons.prems(6,7) ps by auto
  have "pts_history c' cid = foldl record_pts (pts_history c1 cid) ps' \<and>
      length (updates_queue c') = length (updates_queue c1) + length ps'"
    using Cons.prems(2,3,5,6) ps
    by (intro Cons.IH [OF rest _ _ Cons.prems(4) _ _ disj]) simp_all
  with st ps show ?case by simp
qed

lemma sixty_pts_history:
  assumes "length ps = 60"
  shows "foldl record_pts [] ps = drop 25 ps"
proof -
  define a where "a = take 50 ps"
  define b where "b = drop (Suc 50) ps"
  define x where "x = ps ! 50"
  have ps: "ps = a @ x # b"
    unfolding a_def b_def x_def using assms by (intro id_take_nth_drop) simp
  have la: "length a = 50" and lb: "length b = 9"
    using assms by (simp_all add: a_def b_def)
  have "foldl record_pts [] a = a"
    using la foldl_record_pts_short [of "[]" a] by simp
  then have "foldl record_pts [] ps = foldl record_pts (record_pts a x) b"
    by (simp add: ps)
  also have "record_pts a x = drop 25 (a @ [x])"
    using la by (simp add: record_pts_full)
  also have "foldl record_pts (drop 25 (a @ [x])) b = drop 25 (a @ [x]) @ b"
    using la lb by (intro foldl_record_pts_short) simp
  also have "\<dots> = drop 25 ps"
    using la by (simp add: ps)
  finally show ?thesis .
qed


lemma process_update_channel_update:
  "fst (process_update (channel_update cid p) ents c) = Inr ents"
  by (cases ents) (simp add: process_update_def channel_update_def split: prod.splits bool.splits)

lemma process_updates_channel_updates:
  "fst (process_updates (map (channel_update cid) ps) ents c) = Inr ()"
proof (induction ps arbitrary: c)
  case Nil
  then show ?case by simp
next
  case (Cons p ps)
  obtain r c1 where s: "process_update (channel_update cid p) ents c = (r, c1)"
    by (cases "process_update (channel_update cid p) ents c") auto
  with process_update_channel_update [of cid p ents c] have "r = Inr ents" by simp
  with s Cons.IH [of c1] show ?case by simp
qed

lemma channel_update_key:
  "channel_id_of (channel_update cid p) = Some cid" "update_pts (channel_update cid p) = Some p"
  by (simp_all add: channel_update_def channel_id_of_def py_or_def truthy_def)

lemma handle_updates_no_entities:
  "handle_envelope (Updates us [] []) c = process_updates us ([], []) c"
  by simp

lemma handle_updates_history:
  assumes "handle_envelope (Updates us users chats) c = (Inr (), c')"
  obtains c0 where "process_updates us (users, chats) c0 = (Inr (), c')"
    and "pts_history c0 cid = pts_history c cid" and "updates_queue c0 = updates_queue c"
proof -
  obtain r1 c1 where a: "fetch_peers users c = (r1, c1)"
    by (cases "fetch_peers users c") auto
  obtain r2 c2 where b: "fetch_peers chats c1 = (r2, c2)"
    by (cases "fetch_peers chats c1") auto
  from assms a b have p: "process_updates us (users, chats) c2 = (Inr (), c')"
    by (auto split: sum.splits)
  have "frame c c2"
    using fetch_peers_frame [OF a] fetch_peers_frame [OF b] by (rule frame_trans)
  then have "pts_history c2 cid = pts_history c cid" "updates_queue c2 = updates_queue c"
    by (simp_all add: frame_def pts_history_def)
  with p that show ?thesis by blast
qed

lemma process_updates_pair:
  assumes "process_updates [u1, u2] ents c = (Inr (), c')"
    and "channel_id_of u1 = Some cid" and "channel_id_of u2 = Some cid"
    and "update_pts u1 = Some p" and "update_pts u2 = Some p"
    and "cid \<noteq> 0" and "p \<noteq> 0" and "p \<notin> set (pts_history c cid)"
  shows "map fst (updates_queue c') = map fst (updates_queue c) @ [u1]"
proof -
  from assms(1) obtain e1 c1 e2 where
    a: "process_update u1 ents c = (Inr e1, c1)" and b: "process_update u2 e1 c1 = (Inr e2, c')"
    by (auto split: prod.splits sum.splits)
  note f = process_update_fresh [OF a assms(2,6,4,7,8)]
  have "p \<in> set (pts_history c1 cid)"
    by (simp add: f(1) record_pts_mem)
  from process_update_seen [OF b assms(3,6,5,7) this] f show ?thesis
    by simp
qed

lemma process_updates_single:
  "process_updates [u] ents c = (Inr (), c') \<Longrightarrow> \<exists>e. process_update u ents c = (Inr e, c')"
  by (auto split: prod.splits sum.splits)

lemma handle_channel_updates:
  "handle_envelope (Updates (map (channel_update cid) ps) [] []) c =
     (Inr (), snd (handle_envelope (Updates (map (channel_update cid) ps) [] []) c))"
  using process_updates_channel_updates [of cid ps "([], [])" c]
  by (cases "process_updates (map (channel_update cid) ps) ([], []) c") simp

lemma sixty_channel_updates:
  "pts_history (snd (handle_envelope (Updates (map (channel_update 1) (map int [1..<61])) [] []) fresh_client)) 1 =
     drop 25 (map int [1..<61])"
proof -
  let ?ps = "map int [1..<61]"
  let ?us = "map (channel_update 1) ?ps"
  let ?c' = "snd (handle_envelope (Updates ?us [] []) fresh_client)"
  have run: "process_updates ?us ([], []) fresh_client = (Inr (), ?c')"
    using handle_channel_updates [of 1 ?ps fresh_client] by simp
  have h: "pts_history fresh_client 1 = []"
    by (simp add: pts_history_def fresh_client_def)
  have d: "distinct ?ps"
    by (simp add: distinct_map inj_on_def)
  have z: "0 \<notin> set ?ps"
    by auto
  have "pts_history ?c' 1 = foldl record_pts (pts_history fresh_client 1) ?ps \<and>
      length (updates_queue ?c') = length (updates_queue fresh_client) + length ?ps"
    using d z h by (intro process_updates_fresh [OF run]) (simp_all add: channel_update_key comp_def)
  then show ?thesis
    by (simp add: h sixty_pts_history)
qed

text \<open>
  Claim C1, as the code has it. For a channel id and a pts that are neither
  \<^verbatim>\<open>None\<close> nor 0, when the pts is not in the channel's history yet: two updates with
  that pair, in one envelope or in two envelopes handled one after the other without an
  exception, deliver exactly one update, the first. Sixty updates of one channel that
  had no history, with distinct pts values, are all delivered and leave the most recent
  35 values in the history: the list is cut when it reaches 51 entries, by dropping the
  oldest 25, which leaves 26.
\<close>

theorem duplicate_pts_delivered_once:
  "(channel_id_of u1 = Some cid \<and> channel_id_of u2 = Some cid \<and> update_pts u1 = Some p \<and>
    update_pts u2 = Some p \<and> cid \<noteq> 0 \<and> p \<noteq> 0 \<and> p \<notin> set (pts_history c cid) \<and>
    handle_envelope (Updates [u1, u2] users chats) c = (Inr (), c') \<longrightarrow>
      map fst (updates_queue c') = map fst (updates_queue c) @ [u1]) \<and>
   (channel_id_of u1 = Some cid \<and> channel_id_of u2 = Some cid \<and> update_pts u1 = Some p \<and>
    update_pts u2 = Some p \<and> cid \<noteq> 0 \<and> p \<noteq> 0 \<and> p \<notin> set (pts_history c cid) \<and>
    handle_envelope (Updates [u1] users chats) c = (Inr (), c1) \<and>
    handle_envelope (Updates [u2] users2 chats2) c1 = (Inr (), c2) \<longrightarrow>
      map fst (updates_queue c1) = map fst (updates_queue c) @ [u1] \<and>
      updates_queue c2 = updates_queue c1) \<and>
   (map channel_id_of us = map (\<lambda>p. Some cid) ps \<and> map update_pts us = map Some ps \<and>
    cid \<noteq> 0 \<and> 0 \<notin> set ps \<and> distinct ps \<and> length ps = 60 \<and> pts_history c cid = [] \<and>
    handle_envelope (Updates us users chats) c = (Inr (), c') \<longrightarrow>
      pts_history c' cid = drop 25 ps \<and> length (pts_history c' cid) = 35 \<and>
      length (updates_queue c') = length (updates_queue c) + 60) \<and>
   (length h = 50 \<longrightarrow> record_pts h p = drop 25 (h @ [p]) \<and> length (record_pts h p) = 26) \<and>
   (length h < 50 \<longrightarrow> record_pts h p = h @ [p])"
proof (intro conjI impI)
  assume a: "channel_id_of u1 = Some cid \<and> channel_id_of u2 = Some cid \<and> update_pts u1 = Some p \<and>
    update_pts u2 = Some p \<and> cid \<noteq> 0 \<and> p \<noteq> 0 \<and> p \<notin> set (pts_history c cid) \<and>
    handle_envelope (Updates [u1, u2] users chats) c = (Inr (), c')"
  then obtain c0 where c0: "process_updates [u1, u2] (users, chats) c0 = (Inr (), c')"
      "pts_history c0 cid = pts_history c cid" "updates_queue c0 = updates_queue c"
    using handle_updates_history [of "[u1, u2]" users chats c c' cid] by blast
  from a c0(2) have "p \<notin> set (pts_history c0 cid)" by simp
  with a c0 process_updates_pair [OF c0(1), of cid p]
  show "map fst (updates_queue c') = map fst (updates_queue c) @ [u1]"
    by simp
next
  assume a: "channel_id_of u1 = Some cid \<and> channel_id_of u2 = Some cid \<and> update_pts u1 = Some p \<and>
    update_pts u2 = Some p \<and> cid \<noteq> 0 \<and> p \<noteq> 0 \<and> p \<notin> set (pts_history c cid) \<and>
    handle_envelope (Updates [u1] users chats) c = (Inr (), c1) \<and>
    handle_envelope (Updates [u2] users2 chats2) c1 = (Inr (), c2)"
  then obtain c0 where c0: "process_updates [u1] (users, chats) c0 = (Inr (), c1)"
      "pts_history c0 cid = pts_history c cid" "updates_queue c0 = updates_queue c"
    using handle_updates_history [of "[u1]" users chats c c1 cid] by blast
  from a obtain d0 where d0: "process_updates [u2] (users2, chats2) d0 = (Inr (), c2)"
      "pts_history d0 cid = pts_history c1 cid" "updates_queue d0 = updates_queue c1"
    using handle_updates_history [of "[u2]" users2 chats2 c1 c2 cid] by blast
  from process_updates_single [OF c0(1)] obtain e1 where
    s1: "process_update u1 (users, chats) c0 = (Inr e1, c1)" by blast
  from process_updates_single [OF d0(1)] obtain e2 where
    s2: "process_update u2 (users2, chats2) d0 = (Inr e2, c2)" by blast
  have k: "channel_id_of u1 = Some cid" "update_pts u1 = Some p" "channel_id_of u2 = Some cid"
      "update_pts u2 = Some p" "cid \<noteq> 0" "p \<noteq> 0"
    using a by simp_all
  have fresh: "p \<notin> set (pts_history c0 cid)"
    using a c0(2) by simp
  note f = process_update_fresh [OF s1 k(1) k(5) k(2) k(6) fresh]
  have "p \<in> set (pts_history d0 cid)"
    by (simp add: d0(2) f(1) record_pts_mem)
  note g = process_update_seen [OF s2 k(3) k(5) k(4) k(6) this]
  show "map fst (updates_queue c1) = map fst (updates_queue c) @ [u1]"
    using f(2) c0(3) by simp
  show "updates_queue c2 = updates_queue c1"
    using g(2) d0(3) by simp
next
  assume a: "map channel_id_of us = map (\<lambda>p. Some cid) ps \<and> map update_pts us = map Some ps \<and>
    cid \<noteq> 0 \<and> 0 \<notin> set ps \<and> distinct ps \<and> length ps = 60 \<and> pts_history c cid = [] \<and>
    handle_envelope (Updates us users chats) c = (Inr (), c')"
  then obtain c0 where c0: "process_updates us (users, chats) c0 = (Inr (), c')"
      "pts_history c0 cid = pts_history c cid" "updates_queue c0 = updates_queue c"
    using handle_updates_history [of us users chats c c' cid] by blast
  have "pts_history c' cid = foldl record_pts (pts_history c0 cid) ps \<and>
      length (updates_queue c') = length (updates_queue c0) + length ps"
    using a c0(2) by (intro process_updates_fresh [OF c0(1)]) simp_all
  with a c0 have r: "pts_history c' cid = drop 25 ps"
      "length (updates_queue c') = length (updates_queue c) + 60"
    by (simp_all add: sixty_pts_history)
  from r show "pts_history c' cid = drop 25 ps"
    by simp
  from r a show "length (pts_history c' cid) = 35"
    by simp
  from r show "length (updates_queue c') = length (updates_queue c) + 60"
    by simp
next
  assume "length h = 50"
  then show "record_pts h p = drop 25 (h @ [p])"
    by (simp add: record_pts_full)
  from \<open>length h = 50\<close> show "length (record_pts h p) = 26"
    by (simp add: record_pts_length)
next
  assume "length h < 50"
  then show "record_pts h p = h @ [p]"
    by (rule record_pts_short)
qed


theorem duplicate_pts_delivered_once_witness:
  "map fst (updates_queue (snd (handle_envelope (Updates [channel_update 1 7, channel_update 1 7] [] []) fresh_client))) =
     [channel_update 1 7] \<and>
   updates_queue (snd (handle_envelope (Updates [channel_update 1 7] [] [])
       (snd (handle_envelope (Updates [channel_update 1 7] [] []) fresh_client)))) =
     updates_queue (snd (handle_envelope (Updates [channel_update 1 7] [] []) fresh_client)) \<and>
   length (pts_history (snd (handle_envelope (Updates (map (channel_update 1) (map int [1..<61])) [] [])
       fresh_client)) 1) = 35 \<and>
   length (updates_queue (snd (handle_envelope (Updates (map (channel_update 1) (map int [1..<61])) [] [])
       fresh_client))) = 60 \<and>
   length (record_pts (map int [0..<50]) 50) = 26 \<and>
   record_pts [1, 2] 3 = [1, 2, 3]"
proof -
  let ?u = "channel_update 1 7"
  let ?a = "snd (handle_envelope (Updates [?u, ?u] [] []) fresh_client)"
  let ?b = "snd (handle_envelope (Updates [?u] [] []) fresh_client)"
  let ?b2 = "snd (handle_envelope (Updates [?u] [] []) ?b)"
  let ?ps = "map int [1..<61]"
  let ?us = "map (channel_update 1) ?ps"
  let ?d = "snd (handle_envelope (Updates ?us [] []) fresh_client)"
  have key: "channel_id_of ?u = Some 1 \<and> channel_id_of ?u = Some 1 \<and> update_pts ?u = Some 7 \<and>
      update_pts ?u = Some 7 \<and> (1::int) \<noteq> 0 \<and> (7::int) \<noteq> 0 \<and> 7 \<notin> set (pts_history fresh_client 1)"
    by (simp add: channel_update_key pts_history_def fresh_client_def)
  have run_a: "handle_envelope (Updates [?u, ?u] [] []) fresh_client = (Inr (), ?a)"
    using handle_channel_updates [of 1 "[7, 7]" fresh_client] by simp
  have run_b: "handle_envelope (Updates [?u] [] []) fresh_client = (Inr (), ?b)"
    using handle_channel_updates [of 1 "[7]" fresh_client] by simp
  have run_b2: "handle_envelope (Updates [?u] [] []) ?b = (Inr (), ?b2)"
    using handle_channel_updates [of 1 "[7]" ?b] by simp
  have run_d: "handle_envelope (Updates ?us [] []) fresh_client = (Inr (), ?d)"
    using handle_channel_updates [of 1 ?ps fresh_client] by simp
  have q0: "updates_queue fresh_client = []"
    by (simp add: fresh_client_def)
  note t1 = duplicate_pts_delivered_once [where ?u1.0 = ?u and ?u2.0 = ?u and cid = 1 and p = 7
      and c = fresh_client and c' = ?a and users = "[]" and chats = "[]"]
  have w1: "map fst (updates_queue ?a) = map fst (updates_queue fresh_client) @ [?u]"
    using t1 key run_a by blast
  note t2 = duplicate_pts_delivered_once [where ?u1.0 = ?u and ?u2.0 = ?u and cid = 1 and p = 7
      and c = fresh_client and ?c1.0 = ?b and ?c2.0 = ?b2 and users = "[]" and chats = "[]"
      and ?users2.0 = "[]" and ?chats2.0 = "[]"]
  have w2: "updates_queue ?b2 = updates_queue ?b"
    using t2 key run_b run_b2 by blast
  have hyp3: "map channel_id_of ?us = map (\<lambda>p. Some 1) ?ps \<and> map update_pts ?us = map Some ?ps \<and>
      (1::int) \<noteq> 0 \<and> 0 \<notin> set ?ps \<and> distinct ?ps \<and> length ?ps = 60 \<and> pts_history fresh_client 1 = []"
    by (auto simp: channel_update_key comp_def distinct_map inj_on_def pts_history_def fresh_client_def)
  note t3 = duplicate_pts_delivered_once [where us = ?us and ps = ?ps and cid = 1
      and c = fresh_client and c' = ?d and users = "[]" and chats = "[]"]
  have w3: "length (pts_history ?d 1) = 35 \<and> length (updates_queue ?d) = length (updates_queue fresh_client) + 60"
    using t3 hyp3 run_d by blast
  have l50: "length (map int [0..<50]) = 50"
    by simp
  note t4 = duplicate_pts_delivered_once [where h = "map int [0..<50]" and p = 50]
  have w4: "length (record_pts (map int [0..<50]) 50) = 26"
    using t4 l50 by blast
  have l2: "length [1, 2 :: int] < 50"
    by simp
  note t5 = duplicate_pts_delivered_once [where h = "[1, 2]" and p = 3]
  have w5: "record_pts [1, 2] 3 = [1, 2] @ [3]"
    using t5 l2 by blast
  from w1 w2 w3 w4 w5 q0 show ?thesis
    by simp
qed

text \<open>
  The claim as the specification states it fails: sixty distinct pts values leave 35
  entries, not 25, in the history of the channel; and a pts of 0 is not filtered at all.
\<close>

theorem sixty_pts_counterexample:
  "length (pts_history (snd (handle_envelope (Updates (map (channel_update 1) (map int [1..<61])) [] [])
       fresh_client)) 1) = 35 \<and>
   length (pts_history (snd (handle_envelope (Updates (map (channel_update 1) (map int [1..<61])) [] [])
       fresh_client)) 1) \<noteq> 25 \<and>
   length (updates_queue (snd (handle_envelope (Updates [channel_update 1 0, channel_update 1 0] [] [])
       fresh_client))) = 2"
proof -
  have "length (updates_queue (snd (handle_envelope (Updates [channel_update 1 0, channel_update 1 0] [] [])
       fresh_client))) = 2"
    by (simp add: channel_update_def process_update_def track_pts_def truthy_def channel_id_of_def
        py_or_def deliver_def fresh_client_def)
  moreover have "length (pts_history (snd (handle_envelope
      (Updates (map (channel_update 1) (map int [1..<61])) [] []) fresh_client)) 1) = 35"
    by (simp only: sixty_channel_updates) simp
  ultimately show ?thesis
    by (simp only:) simp
qed

subsection \<open>Short message envelopes\<close>

lemma fetch_peer_sent: "fetch_peer e c = Inr c' \<Longrightarrow> sent c' = sent c \<and> replies c' = replies c"
  by (cases e) (auto simp: Let_def split: option.splits if_splits)

lemma fetch_peers_sent: "fetch_peers es c = (r, c') \<Longrightarrow> sent c' = sent c \<and> replies c' = replies c"
proof (induction es arbitrary: c)
  case Nil
  then show ?case by auto
next
  case (Cons e es)
  show ?case
  proof (cases "fetch_peer e c")
    case (Inl err)
    with Cons.prems show ?thesis by auto
  next
    case (Inr c1)
    with Cons.prems have "fetch_peers es c1 = (r, c')" by simp
    from Cons.IH [OF this] fetch_peer_sent [OF Inr] show ?thesis by simp
  qed
qed

lemma send_sent:
  assumes "is_started c"
  shows "sent (snd (send rq c)) = sent c @ [wrap_request c rq]"
proof -
  obtain r c1 where s: "session_send (wrap_request c rq) c = (r, c1)"
    by (cases "session_send (wrap_request c rq) c") auto
  then have c1: "sent c1 = sent c @ [wrap_request c rq]"
    by (auto simp: session_send_def split: list.splits)
  show ?thesis
  proof (cases r)
    case (Inl e)
    with assms s c1 show ?thesis by (simp add: send_def)
  next
    case (Inr x)
    obtain r2 c2 where u: "fetch_peers (users_of x) c1 = (r2, c2)"
      by (cases "fetch_peers (users_of x) c1") auto
    obtain r3 c3 where v: "fetch_peers (chats_of x) c2 = (r3, c3)"
      by (cases "fetch_peers (chats_of x) c2") auto
    from fetch_peers_sent [OF u] fetch_peers_sent [OF v] c1
    have "sent c2 = sent c @ [wrap_request c rq]" "sent c3 = sent c @ [wrap_request c rq]"
      by simp_all
    with assms s Inr u v show ?thesis
      by (cases r2; cases r3) (simp_all add: send_def)
  qed
qed

lemma short_message_sent:
  assumes "is_started c"
  shows "sent (snd (short_message pts pts_count msg_date c)) =
     sent c @ [wrap_request c (GetDifference (pts - pts_count) msg_date (- 1))]"
proof -
  let ?rq = "GetDifference (pts - pts_count) msg_date (- 1)"
  obtain r c1 where s: "send ?rq c = (r, c1)"
    by (cases "send ?rq c") auto
  with send_sent [OF assms, of ?rq] have "sent c1 = sent c @ [wrap_request c ?rq]"
    by simp
  with s show ?thesis
    by (auto simp: short_message_def deliver_def split: sum.splits response.splits list.splits)
qed

lemma short_message_queue:
  assumes "send (GetDifference (pts - pts_count) msg_date (- 1)) c = (r, c1)"
  shows "updates_queue (snd (short_message pts pts_count msg_date c)) =
     updates_queue c @
       (case r of
          Inr (Difference (m # ms) other_updates users chats) \<Rightarrow> [(UpdateNewMessage m pts pts_count, users, chats)]
        | Inr (Difference [] (u # us) users chats) \<Rightarrow> [(u, [], [])]
        | _ \<Rightarrow> [])"
proof -
  from send_frame [OF assms] have "updates_queue c1 = updates_queue c"
    by (simp add: frame_def)
  with assms show ?thesis
    by (auto simp: short_message_def deliver_def split: sum.splits response.splits list.splits)
qed

text \<open>
  Claim C8. For a short message or short chat message envelope the worker, when the
  client is started, sends exactly one request, \<^verbatim>\<open>GetDifference\<close> with
  \<open>pts - pts_count\<close>, the envelope's date and \<open>qts = -1\<close> (inside the wrappers of
  \<^verbatim>\<open>send\<close>). When the call returns a difference, the worker delivers the first new
  message (as \<^verbatim>\<open>UpdateNewMessage\<close> with the envelope's pts and pts_count, and the
  users and chats of the difference) if there is one, else the first of the other
  updates if there is one, else nothing.
\<close>

theorem short_message_get_difference:
  "(env = UpdateShortMessage pts pts_count msg_date \<or> env = UpdateShortChatMessage pts pts_count msg_date) \<longrightarrow>
   (is_started c \<longrightarrow>
      sent (updates_worker [Some env] c) =
        sent c @ [wrap_request c (GetDifference (pts - pts_count) msg_date (- 1))]) \<and>
   (send (GetDifference (pts - pts_count) msg_date (- 1)) c = (Inr (Difference (m # ms) other_updates users chats), c1) \<longrightarrow>
      updates_queue (updates_worker [Some env] c) =
        updates_queue c @ [(UpdateNewMessage m pts pts_count, users, chats)]) \<and>
   (send (GetDifference (pts - pts_count) msg_date (- 1)) c = (Inr (Difference [] (u # us) users chats), c1) \<longrightarrow>
      updates_queue (updates_worker [Some env] c) = updates_queue c @ [(u, [], [])]) \<and>
   (send (GetDifference (pts - pts_count) msg_date (- 1)) c = (Inr (Difference [] [] users chats), c1) \<longrightarrow>
      updates_queue (updates_worker [Some env] c) = updates_queue c)"
proof (intro impI)
  assume "env = UpdateShortMessage pts pts_count msg_date \<or> env = UpdateShortChatMessage pts pts_count msg_date"
  then have w: "updates_worker [Some env] c = snd (short_message pts pts_count msg_date c)"
    by auto
  show "(is_started c \<longrightarrow>
      sent (updates_worker [Some env] c) =
        sent c @ [wrap_request c (GetDifference (pts - pts_count) msg_date (- 1))]) \<and>
   (send (GetDifference (pts - pts_count) msg_date (- 1)) c = (Inr (Difference (m # ms) other_updates users chats), c1) \<longrightarrow>
      updates_queue (updates_worker [Some env] c) =
        updates_queue c @ [(UpdateNewMessage m pts pts_count, users, chats)]) \<and>
   (send (GetDifference (pts - pts_count) msg_date (- 1)) c = (Inr (Difference [] (u # us) users chats), c1) \<longrightarrow>
      updates_queue (updates_worker [Some env] c) = updates_queue c @ [(u, [], [])]) \<and>
   (send (GetDifference (pts - pts_count) msg_date (- 1)) c = (Inr (Difference [] [] users chats), c1) \<longrightarrow>
      updates_queue (updates_worker [Some env] c) = updates_queue c)"
    unfolding w
    by (intro conjI impI) (simp_all add: short_message_sent short_message_queue)
qed


theorem short_message_get_difference_witness:
  "sent (updates_worker [Some (UpdateShortMessage 10 1 1500)]
      (fresh_client\<lparr>replies := [Returns (Difference [Message 5 None, Message 6 None] [channel_update 1 3] [User 7 (Some 9) None None] [])]\<rparr>)) =
     [GetDifference 9 1500 (- 1)] \<and>
   updates_queue (updates_worker [Some (UpdateShortMessage 10 1 1500)]
      (fresh_client\<lparr>replies := [Returns (Difference [Message 5 None, Message 6 None] [channel_update 1 3] [User 7 (Some 9) None None] [])]\<rparr>)) =
     [(UpdateNewMessage (Message 5 None) 10 1, [User 7 (Some 9) None None], [])] \<and>
   updates_queue (updates_worker [Some (UpdateShortChatMessage 10 1 1500)]
      (fresh_client\<lparr>replies := [Returns (Difference [] [channel_update 1 3, channel_update 1 4] [] [])]\<rparr>)) =
     [(channel_update 1 3, [], [])] \<and>
   updates_queue (updates_worker [Some (UpdateShortMessage 10 1 1500)]
      (fresh_client\<lparr>replies := [Returns (Difference [] [] [] [])]\<rparr>)) = []"
proof -
  let ?r1 = "Difference [Message 5 None, Message 6 None] [channel_update 1 3] [User 7 (Some 9) None None] []"
  let ?r2 = "Difference [] [channel_update 1 3, channel_update 1 4] [] []"
  let ?r3 = "Difference [] [] [] []"
  let ?c1 = "fresh_client\<lparr>replies := [Returns ?r1]\<rparr>"
  let ?c2 = "fresh_client\<lparr>replies := [Returns ?r2]\<rparr>"
  let ?c3 = "fresh_client\<lparr>replies := [Returns ?r3]\<rparr>"
  let ?rq = "GetDifference (10 - 1) 1500 (- 1)"
  have s1: "send ?rq ?c1 = (Inr ?r1, snd (send ?rq ?c1))"
    by (simp add: send_def session_send_def fresh_client_def)
  have s2: "send ?rq ?c2 = (Inr ?r2, snd (send ?rq ?c2))"
    by (simp add: send_def session_send_def fresh_client_def)
  have s3: "send ?rq ?c3 = (Inr ?r3, snd (send ?rq ?c3))"
    by (simp add: send_def session_send_def fresh_client_def)
  have st: "is_started ?c1" and q: "updates_queue ?c1 = []" "updates_queue ?c2 = []" "updates_queue ?c3 = []"
    and se: "sent ?c1 = []"
    and wr: "wrap_request ?c1 ?rq = GetDifference 9 1500 (- 1)"
    by (simp_all add: fresh_client_def wrap_request_def truthy_def)
  have e1: "UpdateShortMessage 10 1 1500 = UpdateShortMessage 10 1 1500 \<or>
      UpdateShortMessage 10 1 1500 = UpdateShortChatMessage 10 1 1500"
    by simp
  have e2: "UpdateShortChatMessage 10 1 1500 = UpdateShortMessage 10 1 1500 \<or>
      UpdateShortChatMessage 10 1 1500 = UpdateShortChatMessage 10 1 1500"
    by simp
  note t1 = short_message_get_difference [where env = "UpdateShortMessage 10 1 1500" and pts = 10
      and pts_count = 1 and msg_date = 1500 and c = ?c1 and m = "Message 5 None" and ms = "[Message 6 None]"
      and other_updates = "[channel_update 1 3]" and users = "[User 7 (Some 9) None None]" and chats = "[]"
      and ?c1.0 = "snd (send ?rq ?c1)"]
  have w1: "sent (updates_worker [Some (UpdateShortMessage 10 1 1500)] ?c1) = sent ?c1 @ [wrap_request ?c1 ?rq]"
    using t1 e1 st by blast
  have w2: "updates_queue (updates_worker [Some (UpdateShortMessage 10 1 1500)] ?c1) =
      updates_queue ?c1 @ [(UpdateNewMessage (Message 5 None) 10 1, [User 7 (Some 9) None None], [])]"
    using t1 e1 s1 by blast
  note t2 = short_message_get_difference [where env = "UpdateShortChatMessage 10 1 1500" and pts = 10
      and pts_count = 1 and msg_date = 1500 and c = ?c2 and u = "channel_update 1 3" and us = "[channel_update 1 4]"
      and users = "[]" and chats = "[]" and ?c1.0 = "snd (send ?rq ?c2)"]
  have w3: "updates_queue (updates_worker [Some (UpdateShortChatMessage 10 1 1500)] ?c2) =
      updates_queue ?c2 @ [(channel_update 1 3, [], [])]"
    using t2 e2 s2 by blast
  note t3 = short_message_get_difference [where env = "UpdateShortMessage 10 1 1500" and pts = 10
      and pts_count = 1 and msg_date = 1500 and c = ?c3 and users = "[]" and chats = "[]"
      and ?c1.0 = "snd (send ?rq ?c3)"]
  have w4: "updates_queue (updates_worker [Some (UpdateShortMessage 10 1 1500)] ?c3) = updates_queue ?c3"
    using t3 e1 s3 by blast
  from w1 w2 w3 w4 show ?thesis
    unfolding q se wr by simp
qed

section \<open>The session file\<close>

subsection \<open>Base64\<close>

text \<open>
  \<^verbatim>\<open>base64.b64encode\<close> and \<^verbatim>\<open>base64.b64decode\<close> of the standard library, after RFC 4648:
  three bytes become four characters of the alphabet \<^verbatim>\<open>A-Z a-z 0-9 + /\<close>, and the last
  group is padded with \<^verbatim>\<open>=\<close>. The decoder is the one for text that the encoder
  produces; on any other text it raises (\<^term>\<open>None\<close>), where the library is more lenient.
\<close>

definition b64_char :: "nat \<Rightarrow> char" where
  "b64_char i =
     char_of (if i < 26 then 65 + i else if i < 52 then 71 + i else if i < 62 then i - 4
              else if i = 62 then 43 else 47)"


fun b64encode :: "bytes \<Rightarrow> string" where
  "b64encode [] = []"
| "b64encode [a] =
     [b64_char (unat a div 4), b64_char (unat a mod 4 * 16), CHR ''='', CHR ''='']"
| "b64encode [a, b] =
     [b64_char (unat a div 4), b64_char (unat a mod 4 * 16 + unat b div 16),
      b64_char (unat b mod 16 * 4), CHR ''='']"
| "b64encode (a # b # c # rest) =
     [b64_char (unat a div 4), b64_char (unat a mod 4 * 16 + unat b div 16),
      b64_char (unat b mod 16 * 4 + unat c div 64), b64_char (unat c mod 64)] @ b64encode rest"


subsection \<open>Lines of 43 characters\<close>

text \<open>\<^verbatim>\<open>[s[i: i + 43] for i in range(0, len(s), 43)]\<close> and \<^verbatim>\<open>"".join(lines)\<close>.\<close>

function wrap43 :: "string \<Rightarrow> string list" where
  "wrap43 s = (if s = [] then [] else take 43 s # wrap43 (drop 43 s))"
  by pat_completeness auto
termination
  by (relation "measure length") auto

declare wrap43.simps [simp del]


subsection \<open>\<^verbatim>\<open>Client.save_session\<close> and \<^verbatim>\<open>Client.load_session\<close>\<close>

text \<open>\<^verbatim>\<open>os.path.join(workdir, name)\<close> on POSIX paths.\<close>

definition path_join :: "string \<Rightarrow> string \<Rightarrow> string" where
  "path_join a b =
     (if startswith b ''/'' then b
      else if a = [] \<or> last a = CHR ''/'' then a @ b
      else a @ ''/'' @ b)"

definition session_path :: "client \<Rightarrow> string" where
  "session_path c = path_join (workdir c) (session_name c @ ''.session'')"

text \<open>
  \<^verbatim>\<open>save_session\<close>: \<^verbatim>\<open>b64encode\<close> raises \<^verbatim>\<open>TypeError\<close> on a key that is \<^verbatim>\<open>None\<close>. The
  working directory is taken to be writable.
\<close>

definition save_session :: "client \<Rightarrow> (error + unit) \<times> client" where
  "save_session c =
     (case auth_key c of
        None \<Rightarrow> (Inl TypeError, c)
      | Some key \<Rightarrow>
          let auth_key1 = wrap43 (b64encode key)
          in (Inr (),
              c\<lparr>files := (files c)(session_path c \<mapsto>
                   JObj [(''dc_id'', dc_id c), (''test_mode'', test_mode c),
                         (''auth_key'', JList (map JStr auth_key1)), (''user_id'', user_id c),
                         (''date'', date c), (''is_bot'', is_bot c)])\<rparr>))"





































subsection \<open>The peer directory in the session file\<close>

















section \<open>Uploading a file: \<^verbatim>\<open>Client.save_file\<close>\<close>

text \<open>
  The file at \<^verbatim>\<open>path\<close> is its content (\<^term>\<open>None\<close> when there is no such file). The
  progress callback is the user's function: called with \<open>current\<close> and \<open>total\<close> it
  returns (\<^term>\<open>None\<close>) or raises. MD5 is the parameter \<open>md5\<close>, from the data to its
  digest; a \<^verbatim>\<open>hashlib\<close> object is the data it has been fed. The workers take each
  request from the queue, send it and log a failure, so the upload is what has been put
  on the queue.
\<close>

type_synonym progress = "(int \<Rightarrow> int \<Rightarrow> error option) option"

datatype input_file = InputFile int nat string string | InputFileBig int nat string

record upload =
  enqueued :: "request list"
  reads :: nat

definition part_size :: nat where
  "part_size = 512 * 1024"

text \<open>\<^verbatim>\<open>hex(i)[2:].zfill(2)\<close> for a byte, and the digest as text.\<close>

definition hex_digit :: "nat \<Rightarrow> char" where
  "hex_digit n = (if n < 10 then char_of (48 + n) else char_of (87 + n))"

definition hex_byte :: "8 word \<Rightarrow> string" where
  "hex_byte b = [hex_digit (unat b div 16), hex_digit (unat b mod 16)]"

definition hexdigest :: "bytes \<Rightarrow> string" where
  "hexdigest d = concat (map hex_byte d)"

text \<open>\<^verbatim>\<open>os.path.basename\<close> on a POSIX path.\<close>

definition basename :: "string \<Rightarrow> string" where
  "basename path = rev (takeWhile (\<lambda>ch. ch \<noteq> CHR ''/'') (rev path))"

text \<open>
  How the \<^verbatim>\<open>while True\<close> loop ends: at the end of the file, with the digest text of a
  small file, or by the \<^verbatim>\<open>return\<close> that follows the first part of a resumed upload.
\<close>

datatype loop_exit = Finished "string option" | Returned

text \<open>
  The loop, from the current position of the file: \<open>rest\<close> is what is left to read.
\<close>

function upload_loop ::
  "(bytes \<Rightarrow> bytes) \<Rightarrow> bool \<Rightarrow> bool \<Rightarrow> int \<Rightarrow> nat \<Rightarrow> nat \<Rightarrow> progress \<Rightarrow>
   bytes \<Rightarrow> int \<Rightarrow> bytes option \<Rightarrow> upload \<Rightarrow> (error + loop_exit) \<times> upload" where
  "upload_loop md5 is_big is_missing_part file_id file_total_parts file_size progress
     rest file_part md5_sum u =
     (let chunk = take part_size rest;
          u1 = u\<lparr>reads := Suc (reads u)\<rparr>
      in if chunk = [] then
           (if \<not> is_big then
              (case md5_sum of
                 None \<Rightarrow> (Inl AttributeError, u1)
               | Some fed \<Rightarrow> (Inr (Finished (Some (hexdigest (md5 fed)))), u1))
            else (Inr (Finished None), u1))
         else
           let rpc = (if is_big then SaveBigFilePart file_id file_part (int file_total_parts) chunk
                      else SaveFilePart file_id file_part chunk);
               u2 = u1\<lparr>enqueued := enqueued u1 @ [rpc]\<rparr>
           in if is_missing_part then (Inr Returned, u2)
              else if \<not> is_big \<and> md5_sum = None then (Inl AttributeError, u2)
              else
                let md5_sum1 = (if \<not> is_big then map_option (\<lambda>fed. fed @ chunk) md5_sum else md5_sum);
                    file_part1 = file_part + 1
                in case (case progress of
                           None \<Rightarrow> None
                         | Some callback \<Rightarrow>
                             callback (min (file_part1 * int part_size) (int file_size)) (int file_size)) of
                     Some e \<Rightarrow> (Inl e, u2)
                   | None \<Rightarrow>
                       upload_loop md5 is_big is_missing_part file_id file_total_parts file_size progress
                         (drop part_size rest) file_part1 md5_sum1 u2)"
  by pat_completeness auto
termination
  by (relation "measure (\<lambda>(md5, is_big, is_missing_part, file_id, file_total_parts, file_size,
        progress, rest, file_part, md5_sum, u). length rest)")
    (auto simp: part_size_def)

declare upload_loop.simps [simp del]

text \<open>
  \<^verbatim>\<open>save_file\<close>. \<open>rnd_id\<close> is the value of \<^verbatim>\<open>self.rnd_id()\<close>, \<open>pool_start\<close> the outcome
  of starting the sessions of the pool (\<^term>\<open>None\<close> when they all start). The result
  is the exception raised to the caller, or the value returned (\<^verbatim>\<open>None\<close> when an
  exception was logged, and after the part of a resumed upload).
\<close>

definition save_file ::
  "(bytes \<Rightarrow> bytes) \<Rightarrow> int \<Rightarrow> error option \<Rightarrow> string \<Rightarrow> bytes option \<Rightarrow> int option \<Rightarrow> int \<Rightarrow>
   progress \<Rightarrow> (error + input_file option) \<times> upload" where
  "save_file md5 rnd_id pool_start path content file_id file_part progress =
     (let u0 = \<lparr>enqueued = [], reads = 0\<rparr>
      in case content of
           None \<Rightarrow> (Inl OSError, u0)
         | Some data \<Rightarrow>
             let file_size = length data
             in if file_size = 0 then (Inl ValueError, u0)
                else if file_size > 1500 * 1024 * 1024 then (Inl ValueError, u0)
                else
                  let file_total_parts = (file_size + part_size - 1) div part_size;
                      is_big = (file_size > 10 * 1024 * 1024);
                      is_missing_part = (file_id \<noteq> None);
                      file_id1 = (if truthy file_id then the file_id else rnd_id);
                      md5_sum = (if \<not> is_big \<and> \<not> is_missing_part then Some [] else None);
                      body =
                        (case pool_start of
                           Some e \<Rightarrow> (Inl e, u0)
                         | None \<Rightarrow>
                             if file_part < 0 then (Inl ValueError, u0)
                             else
                               upload_loop md5 is_big is_missing_part file_id1 file_total_parts
                                 file_size progress (drop (part_size * nat file_part) data)
                                 file_part md5_sum u0)
                  in case body of
                       (Inl e, u) \<Rightarrow> if e = StopTransmission then (Inl StopTransmission, u) else (Inr None, u)
                     | (Inr Returned, u) \<Rightarrow> (Inr None, u)
                     | (Inr (Finished md5_text), u) \<Rightarrow>
                         if is_big then (Inr (Some (InputFileBig file_id1 file_total_parts (basename path))), u)
                         else
                           (case md5_text of
                              Some text \<Rightarrow> (Inr (Some (InputFile file_id1 file_total_parts (basename path) text)), u)
                            | None \<Rightarrow> (Inr None, u)))"


text \<open>A progress callback that never raises (or no callback).\<close>

definition quiet :: "progress \<Rightarrow> bool" where
  "quiet progress = (case progress of None \<Rightarrow> True | Some callback \<Rightarrow> \<forall>a b. callback a b = None)"

lemma part_size_pos: "0 < part_size"
  by (simp add: part_size_def)

lemma upload_loop_missing_part:
  assumes "rest \<noteq> []"
  shows "upload_loop md5 is_big True file_id file_total_parts file_size progress rest file_part md5_sum u =
     (Inr Returned,
      u\<lparr>reads := Suc (reads u),
        enqueued := enqueued u @
          [if is_big then SaveBigFilePart file_id file_part (int file_total_parts) (take part_size rest)
           else SaveFilePart file_id file_part (take part_size rest)]\<rparr>)"
  using assms part_size_pos by (subst upload_loop.simps) (simp add: Let_def)

lemma upload_loop_small:
  assumes "quiet progress"
  shows "fst (upload_loop md5 False False file_id file_total_parts file_size progress rest file_part (Some fed) u) =
     Inr (Finished (Some (hexdigest (md5 (fed @ rest)))))"
  using assms
proof (induction rest arbitrary: file_part fed u rule: length_induct)
  case (1 rest)
  show ?case
  proof (cases "rest = []")
    case True
    then show ?thesis
      by (subst upload_loop.simps) (simp add: Let_def)
  next
    case False
    then have shorter: "length (drop part_size rest) < length rest"
      using part_size_pos by simp
    have q: "(case progress of None \<Rightarrow> None | Some callback \<Rightarrow> callback a b) = None" for a b
      using "1.prems" by (simp add: quiet_def split: option.splits)
    have chunk: "take part_size rest \<noteq> []"
      using False part_size_pos by simp
    from "1.IH" shorter "1.prems"
    have ih: "fst (upload_loop md5 False False file_id file_total_parts file_size progress
        (drop part_size rest) fp (Some fd) v) = Inr (Finished (Some (hexdigest (md5 (fd @ drop part_size rest)))))"
      for fp fd v
      by blast
    show ?thesis
      using False part_size_pos by (subst upload_loop.simps) (simp add: Let_def q ih)
  qed
qed

lemma upload_loop_big:
  assumes "quiet progress"
  shows "fst (upload_loop md5 True False file_id file_total_parts file_size progress rest file_part md5_sum u) =
     Inr (Finished None)"
  using assms
proof (induction rest arbitrary: file_part u rule: length_induct)
  case (1 rest)
  show ?case
  proof (cases "rest = []")
    case True
    then show ?thesis
      by (subst upload_loop.simps) (simp add: Let_def)
  next
    case False
    then have shorter: "length (drop part_size rest) < length rest"
      using part_size_pos by simp
    have q: "(case progress of None \<Rightarrow> None | Some callback \<Rightarrow> callback a b) = None" for a b
      using "1.prems" by (simp add: quiet_def split: option.splits)
    have chunk: "take part_size rest \<noteq> []"
      using False part_size_pos by simp
    from "1.IH" shorter "1.prems"
    have ih: "fst (upload_loop md5 True False file_id file_total_parts file_size progress
        (drop part_size rest) fp md5_sum v) = Inr (Finished None)"
      for fp v
      by blast
    show ?thesis
      using False part_size_pos by (subst upload_loop.simps) (simp add: Let_def q ih)
  qed
qed


lemma upload_loop_big_md5:
  "upload_loop md5 True is_missing_part file_id file_total_parts file_size progress rest file_part md5_sum u =
   upload_loop md5' True is_missing_part file_id file_total_parts file_size progress rest file_part md5_sum u"
proof (induction rest arbitrary: file_part u is_missing_part progress rule: length_induct)
  case (1 rest)
  show ?case
  proof (cases "rest = []")
    case True
    then show ?thesis
      by (subst upload_loop.simps, subst (2) upload_loop.simps) (simp add: Let_def)
  next
    case False
    then have "length (drop part_size rest) < length rest"
      using part_size_pos by simp
    with "1.IH"
    have ih: "upload_loop md5 True mp file_id file_total_parts file_size pr
        (drop part_size rest) fp md5_sum v =
      upload_loop md5' True mp file_id file_total_parts file_size pr
        (drop part_size rest) fp md5_sum v" for fp v mp pr
      by blast
    show ?thesis
      by (subst upload_loop.simps, subst (2) upload_loop.simps) (simp add: Let_def ih split: option.splits)
  qed
qed

text \<open>
  Claim C9. With an explicit \<open>file_id\<close> and a \<open>file_part\<close> that lies in the file,
  \<^verbatim>\<open>save_file\<close> reads once, puts exactly one request on the queue (the part read at
  \<open>part_size * file_part\<close>, under the given id, or under a random one when the id is 0)
  and returns \<^verbatim>\<open>None\<close>, whatever the progress callback is. A small file that is not
  resumed gets the MD5 digest of all its data, fed part by part; a big file or a resumed
  upload never uses MD5: the result is the same for every MD5 function.
\<close>

theorem resumed_upload_sends_one_part:
  "(0 < length data \<and> length data \<le> 1500 * 1024 * 1024 \<and> 0 \<le> file_part \<and>
    part_size * nat file_part < length data \<longrightarrow>
      save_file md5 rnd_id None path (Some data) (Some fid) file_part progress =
        (Inr None,
         \<lparr>enqueued =
            [if 10 * 1024 * 1024 < length data
             then SaveBigFilePart (if fid \<noteq> 0 then fid else rnd_id) file_part
                    (int ((length data + part_size - 1) div part_size))
                    (take part_size (drop (part_size * nat file_part) data))
             else SaveFilePart (if fid \<noteq> 0 then fid else rnd_id) file_part
                    (take part_size (drop (part_size * nat file_part) data))],
          reads = 1\<rparr>)) \<and>
   (0 < length data \<and> length data \<le> 10 * 1024 * 1024 \<and> quiet progress \<longrightarrow>
      fst (save_file md5 rnd_id None path (Some data) None 0 progress) =
        Inr (Some (InputFile rnd_id ((length data + part_size - 1) div part_size) (basename path)
                     (hexdigest (md5 data))))) \<and>
   (10 * 1024 * 1024 < length data \<and> length data \<le> 1500 * 1024 * 1024 \<and> quiet progress \<longrightarrow>
      fst (save_file md5 rnd_id None path (Some data) None 0 progress) =
        Inr (Some (InputFileBig rnd_id ((length data + part_size - 1) div part_size) (basename path)))) \<and>
   (10 * 1024 * 1024 < length data \<or> file_id \<noteq> None \<longrightarrow>
      save_file md5 rnd_id pool_start path (Some data) file_id file_part progress =
      save_file md5' rnd_id pool_start path (Some data) file_id file_part progress)"
proof (intro conjI impI)
  assume a: "0 < length data \<and> length data \<le> 1500 * 1024 * 1024 \<and> 0 \<le> file_part \<and>
    part_size * nat file_part < length data"
  then have rest: "drop (part_size * nat file_part) data \<noteq> []"
    by simp
  show "save_file md5 rnd_id None path (Some data) (Some fid) file_part progress =
        (Inr None,
         \<lparr>enqueued =
            [if 10 * 1024 * 1024 < length data
             then SaveBigFilePart (if fid \<noteq> 0 then fid else rnd_id) file_part
                    (int ((length data + part_size - 1) div part_size))
                    (take part_size (drop (part_size * nat file_part) data))
             else SaveFilePart (if fid \<noteq> 0 then fid else rnd_id) file_part
                    (take part_size (drop (part_size * nat file_part) data))],
          reads = 1\<rparr>)"
    using a by (simp add: save_file_def Let_def truthy_def upload_loop_missing_part [OF rest])
next
  assume a: "0 < length data \<and> length data \<le> 10 * 1024 * 1024 \<and> quiet progress"
  then have q: "quiet progress" by simp
  obtain r u where l: "upload_loop md5 False False rnd_id ((length data + part_size - 1) div part_size)
      (length data) progress data 0 (Some []) \<lparr>enqueued = [], reads = 0\<rparr> = (r, u)"
    by (cases "upload_loop md5 False False rnd_id ((length data + part_size - 1) div part_size)
      (length data) progress data 0 (Some []) \<lparr>enqueued = [], reads = 0\<rparr>") auto
  with upload_loop_small [OF q, of md5 rnd_id _ _ data 0 "[]"]
  have r: "r = Inr (Finished (Some (hexdigest (md5 data))))"
    by (metis append_Nil fst_conv)
  show "fst (save_file md5 rnd_id None path (Some data) None 0 progress) =
        Inr (Some (InputFile rnd_id ((length data + part_size - 1) div part_size) (basename path)
                     (hexdigest (md5 data))))"
    using a by (simp add: save_file_def Let_def truthy_def l [simplified] r)
next
  assume a: "10 * 1024 * 1024 < length data \<and> length data \<le> 1500 * 1024 * 1024 \<and> quiet progress"
  then have q: "quiet progress" by simp
  obtain r u where l: "upload_loop md5 True False rnd_id ((length data + part_size - 1) div part_size)
      (length data) progress data 0 None \<lparr>enqueued = [], reads = 0\<rparr> = (r, u)"
    by (cases "upload_loop md5 True False rnd_id ((length data + part_size - 1) div part_size)
      (length data) progress data 0 None \<lparr>enqueued = [], reads = 0\<rparr>") auto
  with upload_loop_big [OF q, of md5 rnd_id _ _ data 0 None]
  have r: "r = Inr (Finished None)"
    by (metis fst_conv)
  from a have "data \<noteq> []" by auto
  then show "fst (save_file md5 rnd_id None path (Some data) None 0 progress) =
        Inr (Some (InputFileBig rnd_id ((length data + part_size - 1) div part_size) (basename path)))"
    using a by (simp add: save_file_def Let_def truthy_def l [simplified] r)
next
  assume a: "10 * 1024 * 1024 < length data \<or> file_id \<noteq> None"
  show "save_file md5 rnd_id pool_start path (Some data) file_id file_part progress =
      save_file md5' rnd_id pool_start path (Some data) file_id file_part progress"
  proof (cases "10 * 1024 * 1024 < length data")
    case True
    then show ?thesis
      by (simp add: save_file_def Let_def upload_loop_big_md5 [of md5 _ _ _ _ _ _ _ _ _ md5'] split: option.splits)
  next
    case False
    with a have m: "file_id \<noteq> None" by simp
    show ?thesis
    proof (cases "drop (part_size * nat file_part) data = []")
      case True
      then have e: "upload_loop f False True i t z progress (drop (part_size * nat file_part) data) file_part None v =
          (Inl AttributeError, v\<lparr>reads := Suc (reads v)\<rparr>)" for f i t z v
        by (subst upload_loop.simps) (simp add: Let_def)
      from False m show ?thesis
        by (simp add: save_file_def Let_def e split: option.splits)
    next
      case rest: False
      from False m show ?thesis
        by (simp add: save_file_def Let_def upload_loop_missing_part [OF rest] split: option.splits)
    qed
  qed
qed


theorem resumed_upload_sends_one_part_witness:
  "save_file (\<lambda>d. d) 9 None ''up/b.bin'' (Some [1, 2, 3]) (Some 5) 0 (Some (\<lambda>a b. Some StopTransmission)) =
     (Inr None, \<lparr>enqueued = [SaveFilePart 5 0 [1, 2, 3]], reads = 1\<rparr>) \<and>
   fst (save_file (\<lambda>d. d) 9 None ''up/b.bin'' (Some [1, 2, 3]) None 0 None) =
     Inr (Some (InputFile 9 1 ''b.bin'' ''010203'')) \<and>
   fst (save_file (\<lambda>d. d) 9 None ''up/b.bin'' (Some (replicate 10485761 0)) None 0 None) =
     Inr (Some (InputFileBig 9 21 ''b.bin'')) \<and>
   save_file (\<lambda>d. d) 9 None ''up/b.bin'' (Some [1, 2, 3]) (Some 5) 0 None =
     save_file (\<lambda>d. []) 9 None ''up/b.bin'' (Some [1, 2, 3]) (Some 5) 0 None"
proof -
  let ?stop = "Some (\<lambda>(a::int) (b::int). Some StopTransmission)"
  have h1: "0 < length [1, 2, 3 :: 8 word] \<and> length [1, 2, 3 :: 8 word] \<le> 1500 * 1024 * 1024 \<and> (0::int) \<le> 0 \<and>
      part_size * nat 0 < length [1, 2, 3 :: 8 word]"
    by simp
  note t1 = resumed_upload_sends_one_part [where data = "[1, 2, 3]" and file_part = 0 and fid = 5
      and ?md5.0 = "\<lambda>d. d" and rnd_id = 9 and path = "''up/b.bin''" and progress = ?stop]
  from t1 h1 have "save_file (\<lambda>d. d) 9 None ''up/b.bin'' (Some [1, 2, 3]) (Some 5) 0 ?stop =
        (Inr None,
         \<lparr>enqueued =
            [if 10 * 1024 * 1024 < length [1, 2, 3 :: 8 word]
             then SaveBigFilePart (if (5::int) \<noteq> 0 then 5 else 9) 0
                    (int ((length [1, 2, 3 :: 8 word] + part_size - 1) div part_size))
                    (take part_size (drop (part_size * nat 0) [1, 2, 3]))
             else SaveFilePart (if (5::int) \<noteq> 0 then 5 else 9) 0
                    (take part_size (drop (part_size * nat 0) [1, 2, 3]))],
          reads = 1\<rparr>)"
    by blast
  then have w1: "save_file (\<lambda>d. d) 9 None ''up/b.bin'' (Some [1, 2, 3]) (Some 5) 0 ?stop =
     (Inr None, \<lparr>enqueued = [SaveFilePart 5 0 [1, 2, 3]], reads = 1\<rparr>)"
    by (simp add: part_size_def)
  have h2: "0 < length [1, 2, 3 :: 8 word] \<and> length [1, 2, 3 :: 8 word] \<le> 10 * 1024 * 1024 \<and> quiet None"
    by (simp add: quiet_def)
  note t2 = resumed_upload_sends_one_part [where data = "[1, 2, 3]" and ?md5.0 = "\<lambda>d. d" and rnd_id = 9
      and path = "''up/b.bin''" and progress = None]
  from t2 h2 have "fst (save_file (\<lambda>d. d) 9 None ''up/b.bin'' (Some [1, 2, 3]) None 0 None) =
        Inr (Some (InputFile 9 ((length [1, 2, 3 :: 8 word] + part_size - 1) div part_size) (basename ''up/b.bin'')
                     (hexdigest [1, 2, 3])))"
    by blast
  moreover have "(length [1, 2, 3 :: 8 word] + part_size - 1) div part_size = 1"
    by (simp add: part_size_def)
  moreover have "basename ''up/b.bin'' = ''b.bin''"
    by (simp add: basename_def)
  moreover have "hexdigest [1, 2, 3] = ''010203''"
    by (simp add: hexdigest_def hex_byte_def hex_digit_def) code_simp
  ultimately have w2: "fst (save_file (\<lambda>d. d) 9 None ''up/b.bin'' (Some [1, 2, 3]) None 0 None) =
     Inr (Some (InputFile 9 1 ''b.bin'' ''010203''))"
    by simp
  have h3: "10 * 1024 * 1024 < length (replicate 10485761 (0 :: 8 word)) \<and>
      length (replicate 10485761 (0 :: 8 word)) \<le> 1500 * 1024 * 1024 \<and> quiet None"
    by (simp add: quiet_def)
  note t3 = resumed_upload_sends_one_part [where data = "replicate 10485761 0" and ?md5.0 = "\<lambda>d. d" and rnd_id = 9
      and path = "''up/b.bin''" and progress = None]
  from t3 h3 have "fst (save_file (\<lambda>d. d) 9 None ''up/b.bin'' (Some (replicate 10485761 0)) None 0 None) =
        Inr (Some (InputFileBig 9 ((length (replicate 10485761 (0 :: 8 word)) + part_size - 1) div part_size)
                     (basename ''up/b.bin'')))"
    by blast
  moreover have "(length (replicate 10485761 (0 :: 8 word)) + part_size - 1) div part_size = 21"
    by (simp add: part_size_def)
  moreover have "basename ''up/b.bin'' = ''b.bin''"
    by (simp add: basename_def)
  ultimately have w3: "fst (save_file (\<lambda>d. d) 9 None ''up/b.bin'' (Some (replicate 10485761 0)) None 0 None) =
     Inr (Some (InputFileBig 9 21 ''b.bin''))"
    by simp
  have h4: "10 * 1024 * 1024 < length [1, 2, 3 :: 8 word] \<or> Some (5::int) \<noteq> None"
    by simp
  note t4 = resumed_upload_sends_one_part [where data = "[1, 2, 3]" and ?md5.0 = "\<lambda>d. d" and ?md5' = "\<lambda>d. []"
      and rnd_id = 9 and path = "''up/b.bin''" and progress = None and file_id = "Some 5" and file_part = 0
      and pool_start = None]
  from t4 h4 have w4: "save_file (\<lambda>d. d) 9 None ''up/b.bin'' (Some [1, 2, 3]) (Some 5) 0 None =
     save_file (\<lambda>d. []) 9 None ''up/b.bin'' (Some [1, 2, 3]) (Some 5) 0 None"
    by blast
  from w1 w2 w3 w4 show ?thesis
    by blast
qed

section \<open>Downloading a file: \<^verbatim>\<open>Client.get_file\<close>\<close>

text \<open>
  The requests of a download go to the media session of the data center and to the CDN
  session; each \<^verbatim>\<open>send\<close> takes the next scripted reply, as before. SHA-256 and the AES
  counter mode are the parameters \<open>sha256\<close> and \<open>ctr256_decrypt\<close>; \<open>auth\<close> and \<open>start\<close>
  are the outcomes of \<^verbatim>\<open>Auth(...).create()\<close> and of \<^verbatim>\<open>Session.start()\<close> for a data
  center. \<open>tmp_name\<close> is the name that \<^verbatim>\<open>tempfile.NamedTemporaryFile\<close> gives the file;
  \<open>temp_files\<close> maps the name of a file to what has been written to it.
\<close>

definition chunk_limit :: nat where
  "chunk_limit = 1024 * 1024"

text \<open>\<^verbatim>\<open>r.bytes\<close>, for the results that have the attribute.\<close>

fun bytes_of :: "response \<Rightarrow> bytes option" where
  "bytes_of (UploadFile b) = Some b"
| "bytes_of (CdnFile b) = Some b"
| "bytes_of (ExportedAuthorization i b) = Some b"
| "bytes_of r = None"

text \<open>
  The progress call of a download: \<^verbatim>\<open>min(offset, size) if size != 0 else offset\<close>, which
  raises \<^verbatim>\<open>TypeError\<close> when \<^verbatim>\<open>size\<close> (here \<open>total_size\<close>) is \<^verbatim>\<open>None\<close>.
\<close>

definition call_progress :: "progress \<Rightarrow> nat \<Rightarrow> int option \<Rightarrow> error option" where
  "call_progress progress offset total_size =
     (case progress of
        None \<Rightarrow> None
      | Some callback \<Rightarrow>
          (case total_size of
             None \<Rightarrow> Some TypeError
           | Some s \<Rightarrow> callback (if s \<noteq> 0 then min (int offset) s else int offset) s))"

text \<open>The slice \<^verbatim>\<open>xs[a:b]\<close>, and \<^verbatim>\<open>n.to_bytes(4, "big")\<close> (\<^verbatim>\<open>OverflowError\<close> from \<open>2^32\<close> on).\<close>

definition py_slice :: "'a list \<Rightarrow> int \<Rightarrow> int \<Rightarrow> 'a list" where
  "py_slice xs a b =
     (let n = int (length xs);
          a1 = (if a < 0 then max (a + n) 0 else min a n);
          b1 = (if b < 0 then max (b + n) 0 else min b n)
      in drop (nat a1) (take (nat b1) xs))"

definition to_bytes4 :: "nat \<Rightarrow> bytes option" where
  "to_bytes4 n =
     (if n < 2 ^ 32
      then Some [of_nat (n div 2 ^ 24), of_nat (n div 2 ^ 16 mod 256), of_nat (n div 256 mod 256),
                 of_nat (n mod 256)]
      else None)"

text \<open>
  The loop over \<^verbatim>\<open>enumerate(hashes)\<close>: part \<open>i\<close> of the decrypted chunk is
  \<^verbatim>\<open>decrypted_chunk[h.limit * i: h.limit * (i + 1)]\<close>, and the \<^verbatim>\<open>assert\<close> compares its
  digest with \<^verbatim>\<open>h.hash\<close>. A hash is \<open>(offset, limit, hash)\<close>.
\<close>

fun verify_hashes :: "(bytes \<Rightarrow> bytes) \<Rightarrow> bytes \<Rightarrow> nat \<Rightarrow> (int \<times> int \<times> bytes) list \<Rightarrow> error + unit" where
  "verify_hashes sha256 decrypted_chunk i [] = Inr ()"
| "verify_hashes sha256 decrypted_chunk i ((h_offset, h_limit, h_hash) # hashes) =
     (if h_hash = sha256 (py_slice decrypted_chunk (h_limit * int i) (h_limit * (int i + 1)))
      then verify_hashes sha256 decrypted_chunk (Suc i) hashes
      else Inl AssertionError)"

text \<open>
  \<^verbatim>\<open>tempfile.NamedTemporaryFile("wb", delete=False)\<close> makes the empty file, and
  \<^verbatim>\<open>f.write\<close> appends to it.
\<close>

definition create_file :: "string \<Rightarrow> client \<Rightarrow> client" where
  "create_file name c = c\<lparr>temp_files := (temp_files c)(name \<mapsto> [])\<rparr>"

definition write_file :: "string \<Rightarrow> bytes \<Rightarrow> client \<Rightarrow> client" where
  "write_file name b c =
     c\<lparr>temp_files := (temp_files c)(name \<mapsto> (case temp_files c name of None \<Rightarrow> b | Some w \<Rightarrow> w @ b))\<rparr>"

text \<open>
  The loop of the plain download into the file \<open>f\<close>. \<open>r\<close> is the last result.
\<close>

function file_loop ::
  "progress \<Rightarrow> int option \<Rightarrow> location \<Rightarrow> string \<Rightarrow> response \<Rightarrow> nat \<Rightarrow> client \<Rightarrow> (error + unit) \<times> client" where
  "file_loop progress total_size loc f r offset c =
     (case bytes_of r of
        None \<Rightarrow> (Inl AttributeError, c)
      | Some chunk \<Rightarrow>
          if chunk = [] then (Inr (), c)
          else
            let c0 = write_file f chunk c
            in case call_progress progress (offset + chunk_limit) total_size of
                 Some e \<Rightarrow> (Inl e, c0)
               | None \<Rightarrow>
                   (case session_send (GetFile loc (offset + chunk_limit) chunk_limit) c0 of
                      (Inl e, c1) \<Rightarrow> (Inl e, c1)
                    | (Inr r1, c1) \<Rightarrow> file_loop progress total_size loc f r1 (offset + chunk_limit) c1))"
  by pat_completeness auto
termination
  by (relation "measure (\<lambda>(progress, total_size, loc, f, r, offset, c). length (replies c))")
    (auto simp: session_send_def write_file_def split: list.splits reply.splits)

declare file_loop.simps [simp del]

text \<open>
  The decryption of a CDN chunk: the counter block is \<^verbatim>\<open>encryption_iv[:-4]\<close> followed by
  \<^verbatim>\<open>(offset // 16).to_bytes(4, "big")\<close>.
\<close>

definition cdn_decrypt ::
  "(bytes \<Rightarrow> bytes \<Rightarrow> bytes \<Rightarrow> bytes) \<Rightarrow> bytes \<Rightarrow> bytes \<Rightarrow> nat \<Rightarrow> bytes \<Rightarrow> bytes option" where
  "cdn_decrypt ctr256_decrypt encryption_key encryption_iv offset chunk =
     (case to_bytes4 (offset div 16) of
        None \<Rightarrow> None
      | Some counter \<Rightarrow>
          Some (ctr256_decrypt chunk encryption_key
                  (take (length encryption_iv - 4) encryption_iv @ counter)))"

text \<open>The loop of the CDN download into the file \<open>f\<close>.\<close>

function cdn_loop ::
  "(bytes \<Rightarrow> bytes) \<Rightarrow> (bytes \<Rightarrow> bytes \<Rightarrow> bytes \<Rightarrow> bytes) \<Rightarrow> progress \<Rightarrow> int option \<Rightarrow>
   bytes \<Rightarrow> bytes \<Rightarrow> bytes \<Rightarrow> string \<Rightarrow> nat \<Rightarrow> client \<Rightarrow> (error + unit) \<times> client" where
  "cdn_loop sha256 ctr256_decrypt progress total_size file_token encryption_key encryption_iv f offset c =
     (case session_send (GetCdnFile file_token offset chunk_limit) c of
        (Inl e, c1) \<Rightarrow> (Inl e, c1)
      | (Inr r2, c1) \<Rightarrow>
          (case r2 of
             CdnFileReuploadNeeded request_token \<Rightarrow>
               (case session_send (ReuploadCdnFile file_token request_token) c1 of
                  (Inl e, c2) \<Rightarrow> if e = VolumeLocNotFound then (Inr (), c2) else (Inl e, c2)
                | (Inr r3, c2) \<Rightarrow>
                    cdn_loop sha256 ctr256_decrypt progress total_size file_token encryption_key encryption_iv
                      f offset c2)
           | _ \<Rightarrow>
               (case bytes_of r2 of
                  None \<Rightarrow> (Inl AttributeError, c1)
                | Some chunk \<Rightarrow>
                    (case cdn_decrypt ctr256_decrypt encryption_key encryption_iv offset chunk of
                       None \<Rightarrow> (Inl OverflowError, c1)
                     | Some decrypted_chunk \<Rightarrow>
                         case session_send (GetCdnFileHashes file_token offset) c1 of
                              (Inl e, c2) \<Rightarrow> (Inl e, c2)
                            | (Inr hashes, c2) \<Rightarrow>
                                (case hashes of
                                   FileHashes hs \<Rightarrow>
                                     (case verify_hashes sha256 decrypted_chunk 0 hs of
                                        Inl e \<Rightarrow> (Inl e, c2)
                                      | Inr u \<Rightarrow>
                                          let c3 = write_file f decrypted_chunk c2
                                          in case call_progress progress (offset + chunk_limit) total_size of
                                               Some e \<Rightarrow> (Inl e, c3)
                                             | None \<Rightarrow>
                                                 if length chunk < chunk_limit then (Inr (), c3)
                                                 else
                                                   cdn_loop sha256 ctr256_decrypt progress total_size file_token
                                                     encryption_key encryption_iv f (offset + chunk_limit) c3)
                                 | _ \<Rightarrow> (Inl TypeError, c2))))))"
  by pat_completeness auto
termination
  by (relation "measure (\<lambda>(sha256, ctr256_decrypt, progress, total_size, file_token, encryption_key,
        encryption_iv, f, offset, c). length (replies c))")
    (auto simp: session_send_def write_file_def split: list.splits reply.splits)

declare cdn_loop.simps [simp del]


text \<open>
  The media session of the data center, made when \<^verbatim>\<open>media_sessions\<close> has none. This
  part of \<^verbatim>\<open>get_file\<close> is outside the \<^verbatim>\<open>try\<close>: its exceptions reach the caller.
\<close>

definition media_session ::
  "(int \<Rightarrow> error + bytes) \<Rightarrow> (int \<Rightarrow> error option) \<Rightarrow> int \<Rightarrow> client \<Rightarrow> (error + unit) \<times> client" where
  "media_session auth start dc c =
     (if dc \<in> media_sessions c then (Inr (), c)
      else if JInt dc \<noteq> dc_id c then
        (case send (ExportAuthorization dc) c of
           (Inl e, c1) \<Rightarrow> (Inl e, c1)
         | (Inr exported_auth, c1) \<Rightarrow>
             (case auth dc of
                Inl e \<Rightarrow> (Inl e, c1)
              | Inr key \<Rightarrow>
                  (case start dc of
                     Some e \<Rightarrow> (Inl e, c1)
                   | None \<Rightarrow>
                       let c2 = c1\<lparr>media_sessions := insert dc (media_sessions c1)\<rparr>
                       in case exported_auth of
                            ExportedAuthorization i b \<Rightarrow>
                              (case session_send (ImportAuthorization i b) c2 of
                                 (Inl e, c3) \<Rightarrow> (Inl e, c3)
                               | (Inr r, c3) \<Rightarrow> (Inr (), c3))
                          | _ \<Rightarrow> (Inl AttributeError, c2))))
      else
        (case start dc of
           Some e \<Rightarrow> (Inl e, c)
         | None \<Rightarrow> (Inr (), c\<lparr>media_sessions := insert dc (media_sessions c)\<rparr>)))"

text \<open>The CDN session, inside the \<^verbatim>\<open>try\<close>.\<close>

definition cdn_session ::
  "(int \<Rightarrow> error + bytes) \<Rightarrow> (int \<Rightarrow> error option) \<Rightarrow> int \<Rightarrow> client \<Rightarrow> (error + unit) \<times> client" where
  "cdn_session auth start dc c =
     (if dc \<in> media_sessions c then (Inr (), c)
      else
        (case auth dc of
           Inl e \<Rightarrow> (Inl e, c)
         | Inr key \<Rightarrow>
             (case start dc of
                Some e \<Rightarrow> (Inl e, c)
              | None \<Rightarrow> (Inr (), c\<lparr>media_sessions := insert dc (media_sessions c)\<rparr>))))"

text \<open>
  The body of the \<^verbatim>\<open>try\<close>: the exception raised, if any, then \<^verbatim>\<open>file_name\<close>, which is
  empty until the temporary file exists.
\<close>

definition download_body ::
  "(bytes \<Rightarrow> bytes) \<Rightarrow> (bytes \<Rightarrow> bytes \<Rightarrow> bytes \<Rightarrow> bytes) \<Rightarrow> (int \<Rightarrow> error + bytes) \<Rightarrow>
   (int \<Rightarrow> error option) \<Rightarrow> string \<Rightarrow> progress \<Rightarrow> int option \<Rightarrow> location \<Rightarrow> client \<Rightarrow>
   (error + unit) \<times> string \<times> client" where
  "download_body sha256 ctr256_decrypt auth start tmp_name progress total_size loc c =
     (case session_send (GetFile loc 0 chunk_limit) c of
        (Inl e, c1) \<Rightarrow> (Inl e, [], c1)
      | (Inr r, c1) \<Rightarrow>
          (case r of
             UploadFile b \<Rightarrow>
               (case file_loop progress total_size loc tmp_name r 0 (create_file tmp_name c1) of
                  (res, c2) \<Rightarrow> (res, tmp_name, c2))
           | FileCdnRedirect dc file_token encryption_key encryption_iv \<Rightarrow>
               (case cdn_session auth start dc c1 of
                  (Inl e, c2) \<Rightarrow> (Inl e, [], c2)
                | (Inr u, c2) \<Rightarrow>
                    (case cdn_loop sha256 ctr256_decrypt progress total_size file_token encryption_key
                            encryption_iv tmp_name 0 (create_file tmp_name c2) of
                       (res, c3) \<Rightarrow> (res, tmp_name, c3)))
           | _ \<Rightarrow> (Inr (), [], c1)))"

text \<open>\<^verbatim>\<open>os.remove(file_name)\<close>, with the \<^verbatim>\<open>OSError\<close> of a missing file passed over.\<close>

definition remove_file :: "string \<Rightarrow> client \<Rightarrow> client" where
  "remove_file file_name c = c\<lparr>temp_files := (temp_files c)(file_name := None)\<rparr>"

text \<open>Photos are addressed by volume, any other file by id and access hash.\<close>

definition file_location ::
  "int option \<Rightarrow> int option \<Rightarrow> int option \<Rightarrow> int option \<Rightarrow> int option \<Rightarrow> location" where
  "file_location file_id access_hash volume_id local_id secret =
     (if truthy volume_id then InputFileLocation volume_id local_id secret
      else InputDocumentFileLocation file_id access_hash)"

text \<open>
  \<^verbatim>\<open>get_file\<close>: the exception of the first part, or the path returned. After an
  exception in the \<^verbatim>\<open>try\<close> (logged unless it is \<^verbatim>\<open>StopTransmission\<close>) the temporary
  file is removed and the path is empty.
\<close>

definition get_file ::
  "(bytes \<Rightarrow> bytes) \<Rightarrow> (bytes \<Rightarrow> bytes \<Rightarrow> bytes \<Rightarrow> bytes) \<Rightarrow> (int \<Rightarrow> error + bytes) \<Rightarrow>
   (int \<Rightarrow> error option) \<Rightarrow> string \<Rightarrow> int \<Rightarrow> int option \<Rightarrow> int option \<Rightarrow> int option \<Rightarrow> int option \<Rightarrow>
   int option \<Rightarrow> int option \<Rightarrow> progress \<Rightarrow> client \<Rightarrow> (error + string) \<times> client" where
  "get_file sha256 ctr256_decrypt auth start tmp_name dc file_id access_hash volume_id local_id secret
     total_size progress c =
     (case media_session auth start dc c of
        (Inl e, c0) \<Rightarrow> (Inl e, c0)
      | (Inr u, c0) \<Rightarrow>
          let loc = file_location file_id access_hash volume_id local_id secret
          in case download_body sha256 ctr256_decrypt auth start tmp_name progress total_size loc c0 of
               (Inl e, file_name, c1) \<Rightarrow> (Inr [], remove_file file_name c1)
             | (Inr u, file_name, c1) \<Rightarrow> (Inr file_name, c1))"



subsection \<open>The temporary file\<close>









text \<open>When the exception comes from one of the loops, the file that is removed is there.\<close>

lemma get_file_removes:
  assumes "media_session auth start dc c = (Inr (), c0)"
    and "download_body sha256 ctr256_decrypt auth start tmp_name progress total_size
           (file_location file_id access_hash volume_id local_id secret) c0 = (Inl e, tmp_name, c1)"
  shows "get_file sha256 ctr256_decrypt auth start tmp_name dc file_id access_hash volume_id local_id
           secret total_size progress c = (Inr [], remove_file tmp_name c1)"
  by (simp add: get_file_def assms)


subsection \<open>CDN hashes\<close>

text \<open>Part \<open>i\<close> of a decrypted chunk has the digest that the hash \<open>h\<close> gives.\<close>

definition hash_matches :: "(bytes \<Rightarrow> bytes) \<Rightarrow> bytes \<Rightarrow> nat \<Rightarrow> int \<times> int \<times> bytes \<Rightarrow> bool" where
  "hash_matches sha256 decrypted_chunk i h =
     (case h of (h_offset, h_limit, h_hash) \<Rightarrow>
        h_hash = sha256 (py_slice decrypted_chunk (h_limit * int i) (h_limit * (int i + 1))))"

text \<open>
  A run of the CDN loop before the chunk of interest: \<open>steps\<close> are the chunks and hash
  lists that the server returns, each of them a full chunk that passes the check, with
  a progress callback that returns.
\<close>

text \<open>
  A run of the CDN loop before the chunk of interest: \<open>steps\<close> are the chunks and hash
  lists that the server returns, each of them a full chunk that passes the check, with
  a progress callback that returns.
\<close>

fun good_steps ::
  "(bytes \<Rightarrow> bytes) \<Rightarrow> (bytes \<Rightarrow> bytes \<Rightarrow> bytes \<Rightarrow> bytes) \<Rightarrow> progress \<Rightarrow> int option \<Rightarrow> bytes \<Rightarrow> bytes \<Rightarrow>
   nat \<Rightarrow> (bytes \<times> (int \<times> int \<times> bytes) list) list \<Rightarrow> bool" where
  "good_steps sha256 ctr256_decrypt progress total_size encryption_key encryption_iv offset [] = True"
| "good_steps sha256 ctr256_decrypt progress total_size encryption_key encryption_iv offset
     ((chunk, hs) # steps) =
     (\<not> length chunk < chunk_limit \<and>
      (case cdn_decrypt ctr256_decrypt encryption_key encryption_iv offset chunk of
         None \<Rightarrow> False
       | Some decrypted_chunk \<Rightarrow> verify_hashes sha256 decrypted_chunk 0 hs = Inr ()) \<and>
      call_progress progress (offset + chunk_limit) total_size = None \<and>
      good_steps sha256 ctr256_decrypt progress total_size encryption_key encryption_iv
        (offset + chunk_limit) steps)"

fun step_replies :: "(bytes \<times> (int \<times> int \<times> bytes) list) list \<Rightarrow> reply list" where
  "step_replies [] = []"
| "step_replies ((chunk, hs) # steps) = Returns (CdnFile chunk) # Returns (FileHashes hs) # step_replies steps"

lemma verify_hashes_iff:
  "verify_hashes sha256 d i hs =
     (if \<forall>k<length hs. hash_matches sha256 d (i + k) (hs ! k) then Inr () else Inl AssertionError)"
proof (induction hs arbitrary: i)
  case Nil
  then show ?case by simp
next
  case (Cons h hs)
  obtain a b x where h: "h = (a, b, x)" by (cases h)
  have split: "(\<forall>k<length (h # hs). hash_matches sha256 d (i + k) ((h # hs) ! k)) \<longleftrightarrow>
      hash_matches sha256 d i h \<and> (\<forall>k<length hs. hash_matches sha256 d (Suc i + k) (hs ! k))"
    by (auto simp: less_Suc_eq_0_disj)
  show ?case
    unfolding split using Cons.IH [of "Suc i"]
    by (simp add: h hash_matches_def)
qed

lemma verify_hashes_mismatch:
  assumes "k < length hs" and "\<not> hash_matches sha256 d k (hs ! k)"
  shows "verify_hashes sha256 d 0 hs = Inl AssertionError"
  using assms by (auto simp: verify_hashes_iff)

lemma cdn_loop_mismatch:
  assumes "replies c = Returns (CdnFile chunk) # Returns (FileHashes hs) # rs"
    and "cdn_decrypt ctr256_decrypt encryption_key encryption_iv offset chunk = Some d"
    and "verify_hashes sha256 d 0 hs = Inl AssertionError"
  shows "cdn_loop sha256 ctr256_decrypt progress total_size file_token encryption_key encryption_iv
           f offset c =
         (Inl AssertionError,
          c\<lparr>replies := rs,
            sent := sent c @ [GetCdnFile file_token offset chunk_limit, GetCdnFileHashes file_token offset]\<rparr>)"
  using assms
  by (subst cdn_loop.simps) (simp add: session_send_def)

lemma cdn_loop_good_step:
  assumes "replies c = Returns (CdnFile chunk) # Returns (FileHashes hs) # rs"
    and "cdn_decrypt ctr256_decrypt encryption_key encryption_iv offset chunk = Some d"
    and "verify_hashes sha256 d 0 hs = Inr ()"
    and "call_progress progress (offset + chunk_limit) total_size = None"
    and "\<not> length chunk < chunk_limit"
  shows "cdn_loop sha256 ctr256_decrypt progress total_size file_token encryption_key encryption_iv
           f offset c =
         cdn_loop sha256 ctr256_decrypt progress total_size file_token encryption_key encryption_iv
           f (offset + chunk_limit)
           (write_file f d
             (c\<lparr>replies := rs,
                 sent := sent c @ [GetCdnFile file_token offset chunk_limit, GetCdnFileHashes file_token offset]\<rparr>))"
  using assms
  by (subst cdn_loop.simps) (simp add: session_send_def)

lemma cdn_loop_mismatch_after:
  assumes "good_steps sha256 ctr256_decrypt progress total_size encryption_key encryption_iv offset steps"
    and "replies c = step_replies steps @ Returns (CdnFile chunk) # Returns (FileHashes hs) # rs"
    and "cdn_decrypt ctr256_decrypt encryption_key encryption_iv (offset + length steps * chunk_limit) chunk = Some d"
    and "verify_hashes sha256 d 0 hs = Inl AssertionError"
    and "temp_files c f = Some w"
  shows "\<exists>c' w'. cdn_loop sha256 ctr256_decrypt progress total_size file_token encryption_key encryption_iv
           f offset c = (Inl AssertionError, c') \<and> temp_files c' f = Some w'"
  using assms
proof (induction steps arbitrary: offset c w)
  case Nil
  then have r: "replies c = Returns (CdnFile chunk) # Returns (FileHashes hs) # rs"
    and d: "cdn_decrypt ctr256_decrypt encryption_key encryption_iv offset chunk = Some d"
    by simp_all
  show ?case
    unfolding cdn_loop_mismatch [OF r d Nil.prems(4)] using Nil.prems(5) by simp
next
  case (Cons step steps)
  obtain ch hs' where step: "step = (ch, hs')" by (cases step)
  from Cons.prems(1) step obtain d' where
    g: "\<not> length ch < chunk_limit" "cdn_decrypt ctr256_decrypt encryption_key encryption_iv offset ch = Some d'"
      "verify_hashes sha256 d' 0 hs' = Inr ()" "call_progress progress (offset + chunk_limit) total_size = None"
      "good_steps sha256 ctr256_decrypt progress total_size encryption_key encryption_iv (offset + chunk_limit) steps"
    by (auto split: option.splits)
  let ?c2 = "write_file f d'
     (c\<lparr>replies := step_replies steps @ Returns (CdnFile chunk) # Returns (FileHashes hs) # rs,
        sent := sent c @ [GetCdnFile file_token offset chunk_limit, GetCdnFileHashes file_token offset]\<rparr>)"
  have r: "replies c = Returns (CdnFile ch) # Returns (FileHashes hs') #
      (step_replies steps @ Returns (CdnFile chunk) # Returns (FileHashes hs) # rs)"
    using Cons.prems(2) step by simp
  have e: "cdn_loop sha256 ctr256_decrypt progress total_size file_token encryption_key encryption_iv
      f offset c =
    cdn_loop sha256 ctr256_decrypt progress total_size file_token encryption_key encryption_iv
      f (offset + chunk_limit) ?c2"
    by (rule cdn_loop_good_step [OF r g(2) g(3) g(4) g(1)])
  have d: "cdn_decrypt ctr256_decrypt encryption_key encryption_iv
      (offset + chunk_limit + length steps * chunk_limit) chunk = Some d"
    using Cons.prems(3) by (simp add: algebra_simps)
  have r2: "replies ?c2 = step_replies steps @ Returns (CdnFile chunk) # Returns (FileHashes hs) # rs"
    by (simp add: write_file_def)
  have w2: "temp_files ?c2 f = Some (w @ d')"
    using Cons.prems(5) by (simp add: write_file_def)
  show ?case
    unfolding e by (rule Cons.IH [OF g(5) r2 d Cons.prems(4) w2])
qed


lemma cdn_session_ok:
  assumes "auth dc = Inr k" and "start dc = None"
  shows "\<exists>c'. cdn_session auth start dc c = (Inr (), c') \<and> replies c' = replies c \<and>
           temp_files c' = temp_files c"
  using assms by (simp add: cdn_session_def)

text \<open>
  The body of the \<^verbatim>\<open>try\<close> on a CDN download whose chunk number \<open>length steps\<close> has a
  part with the wrong digest: \<^verbatim>\<open>AssertionError\<close>, with the temporary file on disk.
\<close>

lemma download_body_cdn_mismatch:
  assumes r: "replies c0 = Returns (FileCdnRedirect cdn_dc file_token encryption_key encryption_iv) #
        step_replies steps @ Returns (CdnFile chunk) # Returns (FileHashes hs) # rs"
    and a: "auth cdn_dc = Inr k" "start cdn_dc = None"
    and g: "good_steps sha256 ctr256_decrypt progress total_size encryption_key encryption_iv 0 steps"
    and d: "cdn_decrypt ctr256_decrypt encryption_key encryption_iv (length steps * chunk_limit) chunk = Some d"
    and v: "verify_hashes sha256 d 0 hs = Inl AssertionError"
  shows "\<exists>c3 w. download_body sha256 ctr256_decrypt auth start tmp_name progress total_size loc c0 =
           (Inl AssertionError, tmp_name, c3) \<and> temp_files c3 tmp_name = Some w"
proof -
  let ?rest = "step_replies steps @ Returns (CdnFile chunk) # Returns (FileHashes hs) # rs"
  let ?c1 = "c0\<lparr>replies := ?rest, sent := sent c0 @ [GetFile loc 0 chunk_limit]\<rparr>"
  have s: "session_send (GetFile loc 0 chunk_limit) c0 =
      (Inr (FileCdnRedirect cdn_dc file_token encryption_key encryption_iv), ?c1)"
    using r by (simp add: session_send_def)
  from cdn_session_ok [where auth = auth and start = start and dc = cdn_dc and c = ?c1, OF a] obtain c2 where
    c2: "cdn_session auth start cdn_dc ?c1 = (Inr (), c2)" "replies c2 = ?rest"
    by auto
  have r2: "replies (create_file tmp_name c2) = ?rest"
    and w2: "temp_files (create_file tmp_name c2) tmp_name = Some []"
    using c2(2) by (simp_all add: create_file_def)
  have d0: "cdn_decrypt ctr256_decrypt encryption_key encryption_iv (0 + length steps * chunk_limit) chunk = Some d"
    using d by simp
  from cdn_loop_mismatch_after [OF g r2 d0 v w2, of file_token] obtain c3 w where
    l: "cdn_loop sha256 ctr256_decrypt progress total_size file_token encryption_key encryption_iv
          tmp_name 0 (create_file tmp_name c2) = (Inl AssertionError, c3)"
      "temp_files c3 tmp_name = Some w"
    by blast
  have "download_body sha256 ctr256_decrypt auth start tmp_name progress total_size loc c0 =
      (Inl AssertionError, tmp_name, c3)"
    by (simp add: download_body_def s c2(1) l(1))
  with l(2) show ?thesis by blast
qed


text \<open>
  Claim C7. During a CDN download, when the digest of some part of a decrypted chunk
  differs from the hash that the server gave for it, the download stops: the
  temporary file, which was there, is removed and \<^verbatim>\<open>get_file\<close> returns the empty path.
  The chunk may be the first one or come after any number of chunks that passed.
\<close>

theorem cdn_hash_mismatch_aborts_download:
  assumes "media_session auth start dc c = (Inr (), c0)"
    and "replies c0 = Returns (FileCdnRedirect cdn_dc file_token encryption_key encryption_iv) #
        step_replies steps @ Returns (CdnFile chunk) # Returns (FileHashes hs) # rs"
    and "auth cdn_dc = Inr k" and "start cdn_dc = None"
    and "good_steps sha256 ctr256_decrypt progress total_size encryption_key encryption_iv 0 steps"
    and "cdn_decrypt ctr256_decrypt encryption_key encryption_iv (length steps * chunk_limit) chunk = Some d"
    and "i < length hs" and "\<not> hash_matches sha256 d i (hs ! i)"
  shows "fst (get_file sha256 ctr256_decrypt auth start tmp_name dc file_id access_hash volume_id local_id
           secret total_size progress c) = Inr [] \<and>
         temp_files (snd (get_file sha256 ctr256_decrypt auth start tmp_name dc file_id access_hash volume_id
           local_id secret total_size progress c)) tmp_name = None \<and>
         (\<exists>c3 w. download_body sha256 ctr256_decrypt auth start tmp_name progress total_size
            (file_location file_id access_hash volume_id local_id secret) c0 =
              (Inl AssertionError, tmp_name, c3) \<and> temp_files c3 tmp_name = Some w)"
proof -
  let ?loc = "file_location file_id access_hash volume_id local_id secret"
  have v: "verify_hashes sha256 d 0 hs = Inl AssertionError"
    by (rule verify_hashes_mismatch [OF assms(7) assms(8)])
  from download_body_cdn_mismatch [where auth = auth and start = start and cdn_dc = cdn_dc
      and tmp_name = tmp_name and loc = ?loc, OF assms(2) assms(3) assms(4) assms(5) assms(6) v]
  obtain c3 w where b: "download_body sha256 ctr256_decrypt auth start tmp_name progress total_size ?loc c0 =
      (Inl AssertionError, tmp_name, c3)" "temp_files c3 tmp_name = Some w"
    by blast
  have g: "get_file sha256 ctr256_decrypt auth start tmp_name dc file_id access_hash volume_id local_id
      secret total_size progress c = (Inr [], remove_file tmp_name c3)"
    by (rule get_file_removes [OF assms(1) b(1)])
  show ?thesis
    unfolding g using b by (simp add: remove_file_def)
qed

theorem cdn_hash_mismatch_aborts_download_witness:
  "fst (get_file (\<lambda>b. b) (\<lambda>ch key iv. ch) (\<lambda>dc. Inr []) (\<lambda>dc. None) ''/tmp/tmpa1'' 2
          (Some 11) (Some 22) None None None (Some 2) None
          (fresh_client\<lparr>dc_id := JInt 2,
             replies := [Returns (FileCdnRedirect 5 [1] [2] [0, 0, 0, 0, 0]), Returns (CdnFile [7, 8]),
                         Returns (FileHashes [(0, 2, [9, 9])])]\<rparr>)) = Inr [] \<and>
   temp_files (snd (get_file (\<lambda>b. b) (\<lambda>ch key iv. ch) (\<lambda>dc. Inr []) (\<lambda>dc. None) ''/tmp/tmpa1'' 2
          (Some 11) (Some 22) None None None (Some 2) None
          (fresh_client\<lparr>dc_id := JInt 2,
             replies := [Returns (FileCdnRedirect 5 [1] [2] [0, 0, 0, 0, 0]), Returns (CdnFile [7, 8]),
                         Returns (FileHashes [(0, 2, [9, 9])])]\<rparr>))) ''/tmp/tmpa1'' = None"
proof -
  let ?rs = "[Returns (FileCdnRedirect 5 [1] [2] [0, 0, 0, 0, 0]), Returns (CdnFile [7, 8]),
              Returns (FileHashes [(0, 2, [9, 9])])]"
  let ?c = "fresh_client\<lparr>dc_id := JInt 2, replies := ?rs\<rparr>"
  let ?d = "?c\<lparr>media_sessions := insert 2 (media_sessions ?c)\<rparr>"
  have h1: "media_session (\<lambda>dc. Inr []) (\<lambda>dc. None) 2 ?c = (Inr (), ?d)"
    by (simp add: media_session_def fresh_client_def)
  have h2: "replies ?d = Returns (FileCdnRedirect 5 [1] [2] [0, 0, 0, 0, 0]) #
      step_replies [] @ Returns (CdnFile [7, 8]) # Returns (FileHashes [(0, 2, [9, 9])]) # []"
    by (simp add: fresh_client_def)
  have h3: "(\<lambda>dc::int. Inr [] :: error + bytes) 5 = Inr []" and h4: "(\<lambda>dc::int. None :: error option) 5 = None"
    by simp_all
  have h5: "good_steps (\<lambda>b. b) (\<lambda>ch key iv. ch) None (Some 2) [2] [0, 0, 0, 0, 0] 0 []"
    by simp
  have h6: "cdn_decrypt (\<lambda>ch key iv. ch) [2] [0, 0, 0, 0, 0] (length ([] :: (bytes \<times> (int \<times> int \<times> bytes) list) list) * chunk_limit) [7, 8] = Some [7, 8]"
    by (simp add: cdn_decrypt_def to_bytes4_def)
  have h7: "0 < length [(0 :: int, 2 :: int, [9, 9] :: bytes)]"
    by simp
  have h8: "\<not> hash_matches (\<lambda>b. b) [7, 8] 0 ([(0, 2, [9, 9])] ! 0)"
    by (simp add: hash_matches_def py_slice_def)
  note t = cdn_hash_mismatch_aborts_download [where auth = "\<lambda>dc. Inr []" and start = "\<lambda>dc. None" and dc = 2
      and c = ?c and ?c0.0 = ?d and cdn_dc = 5 and file_token = "[1]" and encryption_key = "[2]"
      and encryption_iv = "[0, 0, 0, 0, 0]" and steps = "[]" and chunk = "[7, 8]"
      and hs = "[(0, 2, [9, 9])]" and rs = "[]" and k = "[]" and ?sha256.0 = "\<lambda>b. b"
      and ctr256_decrypt = "\<lambda>ch key iv. ch" and progress = None and total_size = "Some 2"
      and d = "[7, 8]" and i = 0 and tmp_name = "''/tmp/tmpa1''" and file_id = "Some 11"
      and access_hash = "Some 22" and volume_id = None and local_id = None and secret = None]
  from t h1 h2 h3 h4 h5 h6 h7 h8 show ?thesis
    by blast
qed


section \<open>Cancelling a transfer\<close>










section \<open>Starting the client: \<^verbatim>\<open>Client.start\<close>\<close>

text \<open>
  Beside the state of the earlier sections (\<open>self\<close>), \<^verbatim>\<open>start\<close> reads and writes the
  transport session, \<^verbatim>\<open>api_id\<close>, \<^verbatim>\<open>bot_token\<close> and \<^verbatim>\<open>takeout\<close>; these make a connection.
  The process has the connection, the task of the updates worker, the tasks of the
  download workers, the dispatcher and the \<^verbatim>\<open>Syncer\<close>.
\<close>

record connection =
  self :: client
  session_running :: bool
  api_id :: json
  bot_token :: "string option"
  takeout :: bool

record process =
  conn :: connection
  updates_worker_task :: bool
  download_worker_tasks :: nat
  dispatcher_started :: bool
  syncer_added :: bool

text \<open>
  What \<^verbatim>\<open>start\<close> calls and does not define is the environment: the match of
  \<^verbatim>\<open>BOT_TOKEN_RE\<close>, the hooks (\<^term>\<open>None\<close> when the attribute is not callable), the
  outcomes of \<^verbatim>\<open>Session.start()\<close>, \<^verbatim>\<open>Session.stop()\<close>, \<^verbatim>\<open>dispatcher.start()\<close> and
  \<^verbatim>\<open>Syncer.add\<close>, the clock, and the constants \<^verbatim>\<open>OFFLINE_SLEEP\<close> and
  \<^verbatim>\<open>DOWNLOAD_WORKERS\<close>. The methods that load the configuration and the plugins,
  authorize and fetch the dialogs and contacts are taken as they come: each is any
  function of the connection that returns or raises.
\<close>

type_synonym step = "connection \<Rightarrow> (error + unit) \<times> connection"

record env =
  bot_token_re :: "string \<Rightarrow> bool"
  load_config :: step
  load_session_hook :: "step option"
  load_plugins :: step
  session_start :: "error option"
  session_stop :: "error option"
  authorize_user :: step
  authorize_bot :: step
  save_session_hook :: "step option"
  now :: int
  offline_sleep :: int
  get_initial_dialogs :: step
  get_contacts :: step
  get_initial_dialogs_chunk :: step
  download_workers :: nat
  dispatcher_start :: "error option"
  syncer_add :: "error option"

text \<open>Statements in sequence: the first exception ends the run.\<close>

fun run :: "('s \<Rightarrow> (error + unit) \<times> 's) list \<Rightarrow> 's \<Rightarrow> (error + unit) \<times> 's" where
  "run [] s = (Inr (), s)"
| "run (st # sts) s = (case st s of (Inl e, s1) \<Rightarrow> (Inl e, s1) | (Inr u, s1) \<Rightarrow> run sts s1)"

text \<open>A method of the earlier sections, on the client of the connection.\<close>

definition on_client :: "(client \<Rightarrow> (error + 'a) \<times> client) \<Rightarrow> connection \<Rightarrow> (error + 'a) \<times> connection" where
  "on_client f cn = (case f (self cn) of (r, c) \<Rightarrow> (r, cn\<lparr>self := c\<rparr>))"

definition discard :: "(error + 'a) \<times> 's \<Rightarrow> (error + unit) \<times> 's" where
  "discard x = (case x of (Inl e, s) \<Rightarrow> (Inl e, s) | (Inr r, s) \<Rightarrow> (Inr (), s))"

text \<open>Truth value and number of a Python value that came from JSON.\<close>

fun json_truthy :: "json \<Rightarrow> bool" where
  "json_truthy JNull = False"
| "json_truthy (JBool b) = b"
| "json_truthy (JInt i) = (i \<noteq> 0)"
| "json_truthy (JStr s) = (s \<noteq> [])"
| "json_truthy (JList xs) = (xs \<noteq> [])"
| "json_truthy (JObj kvs) = (kvs \<noteq> [])"

fun json_number :: "json \<Rightarrow> int option" where
  "json_number (JInt i) = Some i"
| "json_number (JBool b) = Some (if b then 1 else 0)"
| "json_number j = None"

text \<open>A bot token given as session name.\<close>

definition bot_token_as_name :: "env \<Rightarrow> step" where
  "bot_token_as_name ev cn =
     (if bot_token_re ev (session_name (self cn))
      then (Inr (),
            cn\<lparr>self := (self cn)\<lparr>is_bot := JBool True,
                    session_name := takeWhile (\<lambda>ch. ch \<noteq> CHR '':'') (session_name (self cn))\<rparr>,
               bot_token := Some (session_name (self cn))\<rparr>)
      else (Inr (), cn))"

text \<open>
  Without a hook \<^verbatim>\<open>start\<close> calls \<^verbatim>\<open>self.load_session()\<close> and drops the coroutine that the
  call returns: nothing of \<^verbatim>\<open>load_session\<close> runs.
\<close>

definition load_session_step :: "env \<Rightarrow> step" where
  "load_session_step ev cn = (case load_session_hook ev of Some hook \<Rightarrow> hook cn | None \<Rightarrow> (Inr (), cn))"

text \<open>
  \<^verbatim>\<open>Session(self, self.dc_id, self.auth_key, self.api_id.encode('utf-8'))\<close>, for which
  \<^verbatim>\<open>api_id\<close> has to be a string, and \<^verbatim>\<open>await self.session.start()\<close>.
\<close>

definition new_session :: "env \<Rightarrow> step" where
  "new_session ev cn =
     (case api_id cn of
        JStr s \<Rightarrow>
          (case session_start ev of
             Some e \<Rightarrow> (Inl e, cn)
           | None \<Rightarrow> (Inr (), cn\<lparr>session_running := True\<rparr>))
      | _ \<Rightarrow> (Inl AttributeError, cn))"

text \<open>All of \<^verbatim>\<open>start\<close> that comes before \<^verbatim>\<open>self.is_started = True\<close>.\<close>

definition start_prelude :: "env \<Rightarrow> step" where
  "start_prelude ev =
     run [bot_token_as_name ev, load_config ev, load_session_step ev, load_plugins ev, new_session ev]"

text \<open>The authorization of a client that has no user id, and the session file after it.\<close>

definition set_is_bot :: "bool \<Rightarrow> step" where
  "set_is_bot b cn = (Inr (), cn\<lparr>self := (self cn)\<lparr>is_bot := JBool b\<rparr>\<rparr>)"

definition save_session_step :: "env \<Rightarrow> step" where
  "save_session_step ev cn =
     (case save_session_hook ev of Some hook \<Rightarrow> hook cn | None \<Rightarrow> on_client save_session cn)"

definition authorize :: "env \<Rightarrow> step" where
  "authorize ev cn =
     (if user_id (self cn) = JNull then
        run [if bot_token cn = None then run [set_is_bot False, authorize_user ev]
             else run [set_is_bot True, authorize_bot ev],
             save_session_step ev] cn
      else (Inr (), cn))"

text \<open>\<^verbatim>\<open>self.takeout_id = (await self.send(functions.account.InitTakeoutSession())).id\<close>\<close>

definition init_takeout :: step where
  "init_takeout cn =
     (if takeout cn then
        (case on_client (send InitTakeoutSession) cn of
           (Inl e, cn1) \<Rightarrow> (Inl e, cn1)
         | (Inr r, cn1) \<Rightarrow>
             (case r of
                Takeout i \<Rightarrow> (Inr (), cn1\<lparr>self := (self cn1)\<lparr>takeout_id := Some i\<rparr>\<rparr>)
              | ExportedAuthorization i b \<Rightarrow> (Inr (), cn1\<lparr>self := (self cn1)\<lparr>takeout_id := Some i\<rparr>\<rparr>)
              | _ \<Rightarrow> (Inl AttributeError, cn1)))
      else (Inr (), cn))"

text \<open>The dialogs and contacts: all of them after a long time offline.\<close>

definition forget_names :: step where
  "forget_names cn = (Inr (), cn\<lparr>self := (self cn)\<lparr>peers_by_username := Map.empty, peers_by_phone := Map.empty\<rparr>\<rparr>)"

definition synchronize :: "env \<Rightarrow> step" where
  "synchronize ev cn =
     (case json_number (date (self cn)) of
        None \<Rightarrow> (Inl TypeError, cn)
      | Some d \<Rightarrow>
          if \<bar>now ev - d\<bar> > offline_sleep ev
          then run [forget_names, get_initial_dialogs ev, get_contacts ev] cn
          else run [\<lambda>cn. discard (on_client (send GetPinnedDialogs) cn), get_initial_dialogs_chunk ev] cn)"

text \<open>The body of the \<^verbatim>\<open>try\<close>.\<close>

definition start_body :: "env \<Rightarrow> step" where
  "start_body ev =
     run [authorize ev,
          \<lambda>cn. if \<not> json_truthy (is_bot (self cn)) then run [init_takeout, synchronize ev] cn
                else discard (on_client (send GetState) cn)]"

text \<open>
  \<^verbatim>\<open>start\<close>. The handler of the \<^verbatim>\<open>try\<close> resets \<^verbatim>\<open>is_started\<close>, stops the session and
  raises the exception again (the exception of \<^verbatim>\<open>Session.stop()\<close>, should that raise);
  the worker tasks are made after the \<^verbatim>\<open>try\<close>.
\<close>

definition start :: "env \<Rightarrow> process \<Rightarrow> (error + unit) \<times> process" where
  "start ev p =
     (if is_started (self (conn p)) then (Inl ConnectionError, p)
      else
        case start_prelude ev (conn p) of
          (Inl e, cn) \<Rightarrow> (Inl e, p\<lparr>conn := cn\<rparr>)
        | (Inr u, cn) \<Rightarrow>
            (case start_body ev (cn\<lparr>self := (self cn)\<lparr>is_started := True\<rparr>\<rparr>) of
               (Inl e, cn1) \<Rightarrow>
                 let cn2 = cn1\<lparr>self := (self cn1)\<lparr>is_started := False\<rparr>\<rparr>
                 in (case session_stop ev of
                       Some e' \<Rightarrow> (Inl e', p\<lparr>conn := cn2\<rparr>)
                     | None \<Rightarrow> (Inl e, p\<lparr>conn := cn2\<lparr>session_running := False\<rparr>\<rparr>))
             | (Inr u', cn1) \<Rightarrow>
                 let p1 = p\<lparr>conn := cn1, updates_worker_task := True,
                            download_worker_tasks := download_worker_tasks p + download_workers ev\<rparr>
                 in (case dispatcher_start ev of
                       Some e \<Rightarrow> (Inl e, p1)
                     | None \<Rightarrow>
                         let p2 = p1\<lparr>dispatcher_started := True\<rparr>
                         in (case syncer_add ev of
                               Some e \<Rightarrow> (Inl e, p2)
                             | None \<Rightarrow> (Inr (), p2\<lparr>syncer_added := True\<rparr>)))))"


text \<open>A client that has been created and not started, and an environment for it.\<close>

definition created :: process where
  "created =
     \<lparr>conn = \<lparr>self = fresh_client\<lparr>is_started := False\<rparr>, session_running = False,
              api_id = JInt 12345, bot_token = None, takeout = True\<rparr>,
      updates_worker_task = False, download_worker_tasks = 0, dispatcher_started = False,
      syncer_added = False\<rparr>"

text \<open>The same client with the user of an earlier authorization.\<close>

definition signed_in :: process where
  "signed_in =
     created\<lparr>conn := (conn created)\<lparr>self := fresh_client\<lparr>is_started := False, user_id := JInt 7,
                 is_bot := JBool False, date := JInt 1990\<rparr>\<rparr>\<rparr>"

definition returns :: step where
  "returns cn = (Inr (), cn)"

definition set_api_id :: step where
  "set_api_id cn = (Inr (), cn\<lparr>api_id := JStr ''12345''\<rparr>)"

definition phone_number_invalid :: step where
  "phone_number_invalid cn = (Inl (RPCError ''PHONE_NUMBER_INVALID''), cn)"

definition sample_env :: env where
  "sample_env =
     \<lparr>bot_token_re = (\<lambda>name. False), load_config = returns, load_session_hook = Some set_api_id,
      load_plugins = returns, session_start = None, session_stop = None,
      authorize_user = phone_number_invalid, authorize_bot = returns, save_session_hook = Some returns,
      now = 2000, offline_sleep = 900, get_initial_dialogs = returns, get_contacts = returns,
      get_initial_dialogs_chunk = returns, download_workers = 4, dispatcher_start = None,
      syncer_add = None\<rparr>"


subsection \<open>A failure after the session has started\<close>

lemma run_append:
  "run (sts @ sts') s = (case run sts s of (Inl e, s1) \<Rightarrow> (Inl e, s1) | (Inr u, s1) \<Rightarrow> run sts' s1)"
  by (induction sts arbitrary: s) (auto split: prod.splits sum.splits)

text \<open>When the first part of \<^verbatim>\<open>start\<close> returns, the session is running.\<close>

lemma new_session_running: "new_session ev cn0 = (Inr (), cn) \<Longrightarrow> session_running cn"
  by (auto simp: new_session_def split: json.splits option.splits)

lemma start_prelude_running:
  assumes "start_prelude ev cn0 = (Inr (), cn)"
  shows "session_running cn"
proof -
  have "start_prelude ev cn0 =
      (case run [bot_token_as_name ev, load_config ev, load_session_step ev, load_plugins ev] cn0 of
         (Inl e, s1) \<Rightarrow> (Inl e, s1)
       | (Inr u, s1) \<Rightarrow> run [new_session ev] s1)"
    unfolding start_prelude_def
    using run_append [of "[bot_token_as_name ev, load_config ev, load_session_step ev, load_plugins ev]"
        "[new_session ev]" cn0]
    by simp
  with assms obtain s1 where "run [new_session ev] s1 = (Inr (), cn)"
    by (auto split: prod.splits sum.splits)
  then have "new_session ev s1 = (Inr (), cn)"
    by (auto split: prod.splits sum.splits)
  then show ?thesis
    by (rule new_session_running)
qed

text \<open>The three places of the \<^verbatim>\<open>try\<close> that the exception can come from.\<close>

lemma start_body_authorize_raises:
  "fst (authorize ev cn) = Inl e \<Longrightarrow> fst (start_body ev cn) = Inl e"
  by (auto simp: start_body_def split: prod.splits sum.splits)

lemma start_body_takeout_raises:
  assumes "authorize ev cn = (Inr (), cn1)" and "\<not> json_truthy (is_bot (self cn1))"
    and "fst (init_takeout cn1) = Inl e"
  shows "fst (start_body ev cn) = Inl e"
  using assms by (auto simp: start_body_def split: prod.splits sum.splits)

lemma start_body_synchronize_raises:
  assumes "authorize ev cn = (Inr (), cn1)" and "\<not> json_truthy (is_bot (self cn1))"
    and "init_takeout cn1 = (Inr (), cn2)" and "fst (synchronize ev cn2) = Inl e"
  shows "fst (start_body ev cn) = Inl e"
  using assms by (auto simp: start_body_def split: prod.splits sum.splits)

text \<open>A start that returns has made the worker tasks.\<close>

lemma start_returns_workers:
  assumes "start ev p = (Inr (), p')"
  shows "updates_worker_task p' \<and> download_worker_tasks p' = download_worker_tasks p + download_workers ev \<and>
         dispatcher_started p' \<and> syncer_added p'"
  using assms
  by (auto simp: start_def Let_def split: if_splits prod.splits sum.splits option.splits)


text \<open>
  Claim C10. When \<^verbatim>\<open>start\<close> has started the session (all that comes before the \<^verbatim>\<open>try\<close>
  has returned, and then the session is running) and the \<^verbatim>\<open>try\<close> raises, whether
  from the authorization, the takeout or the dialogs and contacts, \<^verbatim>\<open>start\<close> raises the
  same exception with \<^verbatim>\<open>is_started\<close> reset and the session stopped, and has made no
  task for the updates worker or the download workers.
\<close>

theorem start_failure_restores_stopped_state:
  assumes "\<not> is_started (self (conn p))"
    and "start_prelude ev (conn p) = (Inr (), cn)"
    and "fst (start_body ev (cn\<lparr>self := (self cn)\<lparr>is_started := True\<rparr>\<rparr>)) = Inl e"
    and "session_stop ev = None"
  shows "session_running cn \<and>
         fst (start ev p) = Inl e \<and>
         is_started (self (conn (snd (start ev p)))) = False \<and>
         session_running (conn (snd (start ev p))) = False \<and>
         updates_worker_task (snd (start ev p)) = updates_worker_task p \<and>
         download_worker_tasks (snd (start ev p)) = download_worker_tasks p"
proof -
  obtain r cn1 where b: "start_body ev (cn\<lparr>self := (self cn)\<lparr>is_started := True\<rparr>\<rparr>) = (r, cn1)"
    by (cases "start_body ev (cn\<lparr>self := (self cn)\<lparr>is_started := True\<rparr>\<rparr>)") auto
  with assms(3) have r: "r = Inl e" by simp
  have s: "start ev p = (Inl e, p\<lparr>conn := cn1\<lparr>self := (self cn1)\<lparr>is_started := False\<rparr>,
      session_running := False\<rparr>\<rparr>)"
    using assms(1) by (simp add: start_def assms(2) b r assms(4))
  from start_prelude_running [OF assms(2)] show ?thesis
    unfolding s by simp
qed


theorem start_failure_restores_stopped_state_witness:
  "fst (start sample_env created) = Inl (RPCError ''PHONE_NUMBER_INVALID'') \<and>
   is_started (self (conn (snd (start sample_env created)))) = False \<and>
   session_running (conn (snd (start sample_env created))) = False \<and>
   updates_worker_task (snd (start sample_env created)) = False \<and>
   download_worker_tasks (snd (start sample_env created)) = 0 \<and>
   fst (start sample_env signed_in) = Inl TimeoutError \<and>
   is_started (self (conn (snd (start sample_env signed_in)))) = False \<and>
   session_running (conn (snd (start sample_env signed_in))) = False \<and>
   updates_worker_task (snd (start sample_env signed_in)) = False \<and>
   download_worker_tasks (snd (start sample_env signed_in)) = 0"
proof -
  let ?cn = "(conn created)\<lparr>api_id := JStr ''12345'', session_running := True\<rparr>"
  let ?dn = "(conn signed_in)\<lparr>api_id := JStr ''12345'', session_running := True\<rparr>"
  have a1: "\<not> is_started (self (conn created))" and b1: "\<not> is_started (self (conn signed_in))"
    by (simp_all add: created_def signed_in_def)
  have a2: "start_prelude sample_env (conn created) = (Inr (), ?cn)"
    by (simp add: start_prelude_def bot_token_as_name_def load_session_step_def new_session_def
        sample_env_def returns_def set_api_id_def created_def fresh_client_def)
  have b2: "start_prelude sample_env (conn signed_in) = (Inr (), ?dn)"
    by (simp add: start_prelude_def bot_token_as_name_def load_session_step_def new_session_def
        sample_env_def returns_def set_api_id_def created_def signed_in_def fresh_client_def)
  have a3: "fst (start_body sample_env (?cn\<lparr>self := (self ?cn)\<lparr>is_started := True\<rparr>\<rparr>)) =
      Inl (RPCError ''PHONE_NUMBER_INVALID'')"
    by (rule start_body_authorize_raises)
      (simp add: authorize_def set_is_bot_def sample_env_def phone_number_invalid_def created_def
        fresh_client_def)
  have b3: "fst (start_body sample_env (?dn\<lparr>self := (self ?dn)\<lparr>is_started := True\<rparr>\<rparr>)) = Inl TimeoutError"
    by (simp add: start_body_def authorize_def init_takeout_def on_client_def send_def wrap_request_def
        session_send_def truthy_def created_def signed_in_def fresh_client_def)
  have h4: "session_stop sample_env = None"
    by (simp add: sample_env_def)
  have q: "updates_worker_task created = False" "download_worker_tasks created = 0"
    "updates_worker_task signed_in = False" "download_worker_tasks signed_in = 0"
    by (simp_all add: created_def signed_in_def)
  note t1 = start_failure_restores_stopped_state [where p = created and ev = sample_env and cn = ?cn
      and e = "RPCError ''PHONE_NUMBER_INVALID''"]
  note t2 = start_failure_restores_stopped_state [where p = signed_in and ev = sample_env and cn = ?dn
      and e = TimeoutError]
  from t1 [OF a1 a2 a3 h4] t2 [OF b1 b2 b3 h4] show ?thesis
    unfolding q by blast
qed

end
